theory Spec2Isabelle
  imports Main "HOL-Library.AList" "HOL-Library.Multiset"
    "HOL-Library.Char_ord" "HOL-Library.List_Lexorder"
begin

section \<open>Excel-Compare: the diff engine of \<open>app.py\<close>\<close>

text \<open>
  The development embeds the functions \<open>safe_str\<close>, \<open>compare_values\<close>,
  \<open>compare_dataframes\<close> and \<open>compare_excel_files\<close> of \<open>src/app.py\<close>.

  A Python \<open>str\<close> is an Isabelle \<open>string\<close> whose characters are read as the code
  points U+0000 to U+00FF; text with code points beyond U+00FF is outside the model.
  The tables of \<open>isspace\<close>, \<open>lower\<close>, \<open>upper\<close>, \<open>isdigit\<close> and \<open>isalpha\<close> below are
  the ones of Python 3 on that range. \<open>upper\<close> leaves the range at three characters, so
  its result is a list of code points (\<open>nat\<close>).
\<close>

subsection \<open>Strings\<close>

definition isspace :: "char \<Rightarrow> bool" where
  "isspace c =
     (let n = (of_char c :: nat)
      in (9 \<le> n \<and> n \<le> 13) \<or> (28 \<le> n \<and> n \<le> 32) \<or> n = 133 \<or> n = 160)"

definition strip :: "string \<Rightarrow> string" where
  "strip s = rev (dropWhile isspace (rev (dropWhile isspace s)))"

definition lower_char :: "char \<Rightarrow> char" where
  "lower_char c =
     (let n = (of_char c :: nat)
      in if (65 \<le> n \<and> n \<le> 90) \<or> (192 \<le> n \<and> n \<le> 222 \<and> n \<noteq> 215)
         then char_of (n + 32) else c)"

definition lower :: "string \<Rightarrow> string" where
  "lower s = map lower_char s"

definition upper_char :: "char \<Rightarrow> nat list" where
  "upper_char c =
     (let n = (of_char c :: nat)
      in if (97 \<le> n \<and> n \<le> 122) \<or> (224 \<le> n \<and> n \<le> 254 \<and> n \<noteq> 247) then [n - 32]
         else if n = 181 then [924]
         else if n = 223 then [83, 83]
         else if n = 255 then [376]
         else [n])"

definition upper :: "string \<Rightarrow> nat list" where
  "upper s = concat (map upper_char s)"

definition isdecimal_cp :: "nat \<Rightarrow> bool" where
  "isdecimal_cp n = (48 \<le> n \<and> n \<le> 57)"

definition isdigit_cp :: "nat \<Rightarrow> bool" where
  "isdigit_cp n = ((48 \<le> n \<and> n \<le> 57) \<or> n = 178 \<or> n = 179 \<or> n = 185)"

definition isalpha_cp :: "nat \<Rightarrow> bool" where
  "isalpha_cp n =
     ((65 \<le> n \<and> n \<le> 90) \<or> (97 \<le> n \<and> n \<le> 122) \<or> n = 170 \<or> n = 181 \<or> n = 186
      \<or> (192 \<le> n \<and> n \<le> 214) \<or> (216 \<le> n \<and> n \<le> 246) \<or> (248 \<le> n \<and> n \<le> 255)
      \<or> n = 376 \<or> n = 924)"

text \<open>\<open>str.isdigit\<close>: a non-empty string of digit characters.\<close>

definition isdigit :: "nat list \<Rightarrow> bool" where
  "isdigit u = (u \<noteq> [] \<and> list_all isdigit_cp u)"

text \<open>
  The exceptions the modelled code can raise. \<open>py_int\<close> is \<open>int(s)\<close> on the
  strings that \<open>isdigit\<close> accepts, the only ones the code passes to it: \<open>int\<close>
  reads decimal digits and raises \<open>ValueError\<close> on the superscript digits (U+00B2,
  U+00B3, U+00B9) that \<open>isdigit\<close> accepts as well, and, with the default limit of
  CPython 3.11 (\<open>sys.get_int_max_str_digits() = 4300\<close>), on a string of more than
  4300 digits, leading zeros counted.
\<close>

definition int_max_str_digits :: nat where
  "int_max_str_digits = 4300"

datatype error = ValueError | KeyError | IndexError

definition py_int :: "nat list \<Rightarrow> error + int" where
  "py_int u =
     (if u \<noteq> [] \<and> list_all isdecimal_cp u \<and> length u \<le> int_max_str_digits
      then Inr (fold (\<lambda>c a. 10 * a + int (c - 48)) u 0)
      else Inl ValueError)"

text \<open>
  A raw cell or column label of a DataFrame: \<open>None\<close> is a missing value (\<open>NaN\<close>,
  \<open>None\<close>), \<open>Some s\<close> a value whose \<open>str()\<close> is \<open>s\<close>.
\<close>

type_synonym pyval = "string option"

definition safe_str :: "pyval \<Rightarrow> string" where
  "safe_str val = (case val of None \<Rightarrow> [] | Some s \<Rightarrow> strip s)"

definition compare_values :: "string \<Rightarrow> string \<Rightarrow> bool \<Rightarrow> bool" where
  "compare_values val1 val2 case_sensitive =
     (if case_sensitive then val1 = val2 else lower val1 = lower val2)"

subsection \<open>Tables and diff results\<close>

text \<open>
  A DataFrame: its column labels and its rows. pandas keeps every row as wide as the
  column labels and reads a cell that was never filled as \<open>NaN\<close>; \<open>iloc\<close> does the
  same for a row shorter than the labels. \<open>iloc\<close> is only called inside the bounds
  that \<open>get_row_values\<close> checks.
\<close>

record dataframe =
  columns :: "pyval list"
  df_rows :: "pyval list list"

definition len_df :: "dataframe \<Rightarrow> nat" where
  "len_df df = length (df_rows df)"

definition iloc :: "dataframe \<Rightarrow> nat \<Rightarrow> nat \<Rightarrow> pyval" where
  "iloc df row_idx i =
     (let r = df_rows df ! row_idx in if i < length r then r ! i else None)"

datatype status = Same | Modified | Added | Deleted

record cell =
  cell_value :: string
  old_value :: "string option"
  cell_status :: status

record row_diff =
  row_status :: status
  cells :: "cell list"

record summary =
  total_rows :: nat
  added :: nat
  deleted :: nat
  modified :: nat
  unchanged :: nat

record result =
  headers :: "string list"
  rows :: "row_diff list"
  summary :: summary

subsection \<open>\<open>compare_dataframes\<close>\<close>

text \<open>The header loop: \<open>merged_headers.append(h2 if h2 else h1)\<close>.\<close>

definition merge_headers :: "string list \<Rightarrow> string list \<Rightarrow> nat \<Rightarrow> string list" where
  "merge_headers headers1 headers2 max_cols =
     fold (\<lambda>i merged_headers.
             let h1 = (if i < length headers1 then headers1 ! i else []);
                 h2 = (if i < length headers2 then headers2 ! i else [])
             in merged_headers @ [if h2 \<noteq> [] then h2 else h1])
          [0..<max_cols] []"

definition get_row_values :: "dataframe \<Rightarrow> nat \<Rightarrow> nat \<Rightarrow> string list" where
  "get_row_values df row_idx cols =
     (if row_idx \<ge> len_df df then replicate cols []
      else map (\<lambda>i. if i < length (columns df) then safe_str (iloc df row_idx i) else [])
               [0..<cols])"

text \<open>
  A Python \<open>dict\<close> keeps insertion order and assigning to a key that is present keeps
  the key's place: an association list under \<open>AList.update\<close>.
\<close>

definition build_index :: "dataframe \<Rightarrow> nat \<Rightarrow> nat \<Rightarrow> (string \<times> nat \<times> string list) list" where
  "build_index df key_column max_cols =
     fold (\<lambda>idx index.
             let row = get_row_values df idx max_cols;
                 key = (if key_column < length row then row ! key_column else [])
             in if key \<noteq> [] then AList.update key (idx, row) index else index)
          [0..<len_df df] []"

text \<open>\<open>list(dict.fromkeys(ks))\<close>: the keys in the order of their first occurrence.\<close>

definition dict_fromkeys :: "'k list \<Rightarrow> ('k \<times> unit) list" where
  "dict_fromkeys ks = fold (\<lambda>k d. AList.update k () d) ks []"

definition same_cell :: "string \<Rightarrow> cell" where
  "same_cell v2 = \<lparr>cell_value = v2, old_value = None, cell_status = Same\<rparr>"

definition modified_cell :: "string \<Rightarrow> string \<Rightarrow> cell" where
  "modified_cell v1 v2 = \<lparr>cell_value = v2, old_value = Some v1, cell_status = Modified\<rparr>"

definition deleted_cell :: "string \<Rightarrow> cell" where
  "deleted_cell v = \<lparr>cell_value = v, old_value = None, cell_status = Deleted\<rparr>"

definition added_cell :: "string \<Rightarrow> cell" where
  "added_cell v = \<lparr>cell_value = v, old_value = None, cell_status = Added\<rparr>"

text \<open>
  The cell loop of the key branch (lines 160 to 172): the pair of \<open>cells\<close> and
  \<open>has_diff\<close>, with the guarded reads of the source.
\<close>

definition key_cells :: "string list \<Rightarrow> string list \<Rightarrow> nat \<Rightarrow> bool \<Rightarrow> cell list \<times> bool" where
  "key_cells row1 row2 max_cols case_sensitive =
     fold (\<lambda>col_idx (cells, has_diff).
             let v1 = (if col_idx < length row1 then row1 ! col_idx else []);
                 v2 = (if col_idx < length row2 then row2 ! col_idx else [])
             in if compare_values v1 v2 case_sensitive
                then (cells @ [same_cell v2], has_diff)
                else (cells @ [modified_cell v1 v2], True))
          [0..<max_cols] ([], False)"

text \<open>
  The cell loop of the positional branch (lines 228 to 240) reads \<open>row1[col_idx]\<close>
  without a guard: an index past the end raises \<open>IndexError\<close>.
\<close>

definition list_get :: "'a list \<Rightarrow> nat \<Rightarrow> error + 'a" where
  "list_get xs i = (if i < length xs then Inr (xs ! i) else Inl IndexError)"

fun foldM :: "('a \<Rightarrow> 's \<Rightarrow> error + 's) \<Rightarrow> 'a list \<Rightarrow> 's \<Rightarrow> error + 's" where
  "foldM f [] s = Inr s"
| "foldM f (x # xs) s = (case f x s of Inl e \<Rightarrow> Inl e | Inr s' \<Rightarrow> foldM f xs s')"

definition pos_cells ::
  "string list \<Rightarrow> string list \<Rightarrow> nat \<Rightarrow> bool \<Rightarrow> error + cell list \<times> bool" where
  "pos_cells row1 row2 max_cols case_sensitive =
     foldM (\<lambda>col_idx (cells, has_diff).
              case list_get row1 col_idx of Inl e \<Rightarrow> Inl e | Inr v1 \<Rightarrow>
              (case list_get row2 col_idx of Inl e \<Rightarrow> Inl e | Inr v2 \<Rightarrow>
                if compare_values v1 v2 case_sensitive
                then Inr (cells @ [same_cell v2], has_diff)
                else Inr (cells @ [modified_cell v1 v2], True)))
           [0..<max_cols] ([], False)"

definition append_row :: "status \<Rightarrow> cell list \<Rightarrow> result \<Rightarrow> result" where
  "append_row st cs r =
     r\<lparr>rows := rows r @ [\<lparr>row_status = st, cells = cs\<rparr>],
       summary :=
         (case st of
            Modified \<Rightarrow> (summary r)\<lparr>modified := modified (summary r) + 1\<rparr>
          | Same \<Rightarrow> (summary r)\<lparr>unchanged := unchanged (summary r) + 1\<rparr>
          | Deleted \<Rightarrow> (summary r)\<lparr>deleted := deleted (summary r) + 1\<rparr>
          | Added \<Rightarrow> (summary r)\<lparr>added := added (summary r) + 1\<rparr>)\<rparr>"

text \<open>
  The body of \<open>for key in all_keys\<close> (lines 151 to 197). The last branch reads
  \<open>index2[key]\<close>, which raises \<open>KeyError\<close> for a key that is in neither index.
\<close>

definition key_step ::
  "(string \<times> nat \<times> string list) list \<Rightarrow> (string \<times> nat \<times> string list) list \<Rightarrow> nat \<Rightarrow> bool
     \<Rightarrow> string \<Rightarrow> result \<Rightarrow> error + result" where
  "key_step index1 index2 max_cols case_sensitive key r =
     (case (map_of index1 key, map_of index2 key) of
        (Some (idx1, row1), Some (idx2, row2)) \<Rightarrow>
          (let (cs, has_diff) = key_cells row1 row2 max_cols case_sensitive
           in if has_diff then Inr (append_row Modified cs r)
              else Inr (append_row Same cs r))
      | (Some (idx1, row1), None) \<Rightarrow> Inr (append_row Deleted (map deleted_cell row1) r)
      | (None, Some (idx2, row2)) \<Rightarrow> Inr (append_row Added (map added_cell row2) r)
      | (None, None) \<Rightarrow> Inl KeyError)"

text \<open>The body of \<open>for row_idx in range(max_rows)\<close> (lines 205 to 247).\<close>

definition pos_step ::
  "dataframe \<Rightarrow> dataframe \<Rightarrow> nat \<Rightarrow> bool \<Rightarrow> nat \<Rightarrow> result \<Rightarrow> error + result" where
  "pos_step df1 df2 max_cols case_sensitive row_idx r =
     (let has_row1 = row_idx < len_df df1;
          has_row2 = row_idx < len_df df2;
          row1 = get_row_values df1 row_idx max_cols;
          row2 = get_row_values df2 row_idx max_cols
      in if \<not> has_row1 then Inr (append_row Added (map added_cell row2) r)
         else if \<not> has_row2 then Inr (append_row Deleted (map deleted_cell row1) r)
         else (case pos_cells row1 row2 max_cols case_sensitive of
                 Inl e \<Rightarrow> Inl e
               | Inr (cs, has_diff) \<Rightarrow>
                   if has_diff then Inr (append_row Modified cs r)
                   else Inr (append_row Same cs r)))"

definition set_total_rows :: "nat \<Rightarrow> result \<Rightarrow> result" where
  "set_total_rows n r = r\<lparr>summary := (summary r)\<lparr>total_rows := n\<rparr>\<rparr>"

definition max_cols_of :: "dataframe \<Rightarrow> dataframe \<Rightarrow> nat" where
  "max_cols_of df1 df2 =
     max (length (map safe_str (columns df1))) (length (map safe_str (columns df2)))"

text \<open>The test of line 132: \<open>key_column is not None and 0 <= key_column < max_cols\<close>.\<close>

definition key_matching :: "int option \<Rightarrow> nat \<Rightarrow> bool" where
  "key_matching key_column max_cols =
     (case key_column of None \<Rightarrow> False | Some k \<Rightarrow> 0 \<le> k \<and> k < int max_cols)"

definition compare_dataframes ::
  "dataframe \<Rightarrow> dataframe \<Rightarrow> int option \<Rightarrow> bool \<Rightarrow> error + result" where
  "compare_dataframes df1 df2 key_column case_sensitive =
     (let headers1 = map safe_str (columns df1);
          headers2 = map safe_str (columns df2);
          max_cols = max_cols_of df1 df2;
          merged_headers = merge_headers headers1 headers2 max_cols;
          result0 = \<lparr>headers = merged_headers, rows = [],
                     summary = \<lparr>total_rows = 0, added = 0, deleted = 0,
                                 modified = 0, unchanged = 0\<rparr>\<rparr>
      in if key_matching key_column max_cols
         then (let kc = nat (the key_column);
                   index1 = build_index df1 kc max_cols;
                   index2 = build_index df2 kc max_cols;
                   all_keys = map fst (dict_fromkeys (map fst index1 @ map fst index2))
               in case foldM (key_step index1 index2 max_cols case_sensitive) all_keys result0 of
                    Inl e \<Rightarrow> Inl e
                  | Inr r \<Rightarrow> Inr (set_total_rows (length (rows r)) r))
         else (let max_rows = max (len_df df1) (len_df df2)
               in case foldM (pos_step df1 df2 max_cols case_sensitive) [0..<max_rows] result0 of
                    Inl e \<Rightarrow> Inl e
                  | Inr r \<Rightarrow> Inr (set_total_rows max_rows r)))"

subsection \<open>\<open>compare_excel_files\<close>\<close>

text \<open>
  The workbooks are the dictionaries that \<open>read_excel_file\<close> returns, sheet name to
  DataFrame; reading the files is outside the model. \<open>key_col_idx\<close> is the parsing of
  the key column (lines 268 to 275), \<open>sheet_step\<close> the body of the loop over the sorted
  sheet names, and \<open>sorted(list(set(a) | set(b)))\<close> is the sorted list without duplicates.
\<close>

record wb_summary =
  total_differences :: nat
  wb_added :: nat
  wb_deleted :: nat
  wb_modified :: nat

record wb_result =
  file1 :: string
  file2 :: string
  sheets :: "(string \<times> result) list"
  sheet_list :: "string list"
  wb_summary :: wb_summary

definition isalpha :: "nat list \<Rightarrow> bool" where
  "isalpha u = (u \<noteq> [] \<and> list_all isalpha_cp u)"

definition key_col_idx :: "string option \<Rightarrow> error + int option" where
  "key_col_idx key_column =
     (case key_column of
        None \<Rightarrow> Inr None
      | Some s \<Rightarrow>
          if s = [] then Inr None
          else (let u = upper (strip s)
                in if isdigit u
                   then (case py_int u of Inl e \<Rightarrow> Inl e | Inr v \<Rightarrow> Inr (Some (v - 1)))
                   else if length u = 1 \<and> isalpha u then Inr (Some (int (u ! 0) - 65))
                   else Inr None))"

definition empty_df :: dataframe where
  "empty_df = \<lparr>columns = [], df_rows = []\<rparr>"

definition sheet_step ::
  "(string \<times> dataframe) list \<Rightarrow> (string \<times> dataframe) list \<Rightarrow> int option \<Rightarrow> bool
     \<Rightarrow> string \<Rightarrow> wb_result \<Rightarrow> error + wb_result" where
  "sheet_step sheets1 sheets2 kidx case_sensitive sname r =
     (let df1 = (case map_of sheets1 sname of None \<Rightarrow> empty_df | Some df \<Rightarrow> df);
          df2 = (case map_of sheets2 sname of None \<Rightarrow> empty_df | Some df \<Rightarrow> df)
      in case compare_dataframes df1 df2 kidx case_sensitive of
           Inl e \<Rightarrow> Inl e
         | Inr diff \<Rightarrow>
             Inr (r\<lparr>sheets := AList.update sname diff (sheets r),
                    wb_summary := (wb_summary r)
                      \<lparr>wb_added := wb_added (wb_summary r) + added (summary diff),
                       wb_deleted := wb_deleted (wb_summary r) + deleted (summary diff),
                       wb_modified := wb_modified (wb_summary r) + modified (summary diff)\<rparr>\<rparr>))"

definition compare_excel_files ::
  "(string \<times> dataframe) list \<Rightarrow> string \<Rightarrow> (string \<times> dataframe) list \<Rightarrow> string
     \<Rightarrow> string option \<Rightarrow> string option \<Rightarrow> bool \<Rightarrow> error + wb_result" where
  "compare_excel_files sheets1 file1_name sheets2 file2_name sheet_name key_column case_sensitive =
     (case key_col_idx key_column of
        Inl e \<Rightarrow> Inl e
      | Inr kidx \<Rightarrow>
          (let sheets_to_compare =
                 (if sheet_name \<noteq> None \<and> the sheet_name \<noteq> [] \<and> the sheet_name \<noteq> ''all''
                  then (if the sheet_name \<in> set (map fst sheets1) \<or>
                           the sheet_name \<in> set (map fst sheets2)
                        then [the sheet_name] else [])
                  else remdups (map fst sheets1 @ map fst sheets2));
               r0 = \<lparr>file1 = file1_name, file2 = file2_name, sheets = [],
                     sheet_list = sort sheets_to_compare,
                     wb_summary = \<lparr>total_differences = 0, wb_added = 0, wb_deleted = 0,
                                    wb_modified = 0\<rparr>\<rparr>
           in case foldM (sheet_step sheets1 sheets2 kidx case_sensitive)
                     (sort sheets_to_compare) r0 of
                Inl e \<Rightarrow> Inl e
              | Inr r \<Rightarrow>
                  Inr (r\<lparr>wb_summary := (wb_summary r)
                         \<lparr>total_differences := wb_added (wb_summary r)
                            + wb_deleted (wb_summary r) + wb_modified (wb_summary r)\<rparr>\<rparr>)))"

subsection \<open>Closed forms of the loops\<close>

text \<open>
  The functions below are used in the proofs: what each loop of \<open>compare_dataframes\<close>
  computes, written without the accumulators. \<open>compare_dataframes_eq\<close> relates them
  to the code.
\<close>

definition diff_cell :: "bool \<Rightarrow> string \<Rightarrow> string \<Rightarrow> cell" where
  "diff_cell case_sensitive v1 v2 =
     (if compare_values v1 v2 case_sensitive then same_cell v2 else modified_cell v1 v2)"

definition nth_or_empty :: "string list \<Rightarrow> nat \<Rightarrow> string" where
  "nth_or_empty row i = (if i < length row then row ! i else [])"

definition paired_cells :: "bool \<Rightarrow> nat \<Rightarrow> string list \<Rightarrow> string list \<Rightarrow> cell list" where
  "paired_cells case_sensitive n row1 row2 =
     map (\<lambda>i. diff_cell case_sensitive (nth_or_empty row1 i) (nth_or_empty row2 i)) [0..<n]"

definition paired_row :: "bool \<Rightarrow> nat \<Rightarrow> string list \<Rightarrow> string list \<Rightarrow> row_diff" where
  "paired_row case_sensitive n row1 row2 =
     \<lparr>row_status =
        (if list_ex (\<lambda>c. cell_status c = Modified) (paired_cells case_sensitive n row1 row2)
         then Modified else Same),
      cells = paired_cells case_sensitive n row1 row2\<rparr>"

definition key_row ::
  "(string \<times> nat \<times> string list) list \<Rightarrow> (string \<times> nat \<times> string list) list \<Rightarrow> nat \<Rightarrow> bool
     \<Rightarrow> string \<Rightarrow> row_diff" where
  "key_row index1 index2 n case_sensitive key =
     (case (map_of index1 key, map_of index2 key) of
        (Some (idx1, row1), Some (idx2, row2)) \<Rightarrow> paired_row case_sensitive n row1 row2
      | (Some (idx1, row1), None) \<Rightarrow> \<lparr>row_status = Deleted, cells = map deleted_cell row1\<rparr>
      | (None, Some (idx2, row2)) \<Rightarrow> \<lparr>row_status = Added, cells = map added_cell row2\<rparr>
      | (None, None) \<Rightarrow> \<lparr>row_status = Same, cells = []\<rparr>)"

definition pos_row :: "dataframe \<Rightarrow> dataframe \<Rightarrow> nat \<Rightarrow> bool \<Rightarrow> nat \<Rightarrow> row_diff" where
  "pos_row df1 df2 n case_sensitive i =
     (if \<not> i < len_df df1
      then \<lparr>row_status = Added, cells = map added_cell (get_row_values df2 i n)\<rparr>
      else if \<not> i < len_df df2
      then \<lparr>row_status = Deleted, cells = map deleted_cell (get_row_values df1 i n)\<rparr>
      else paired_row case_sensitive n (get_row_values df1 i n) (get_row_values df2 i n))"

definition count_status :: "status \<Rightarrow> row_diff list \<Rightarrow> nat" where
  "count_status st rs = length (filter (\<lambda>r. row_status r = st) rs)"

definition add_row :: "row_diff \<Rightarrow> result \<Rightarrow> result" where
  "add_row row r = append_row (row_status row) (cells row) r"

definition tallied :: "string list \<Rightarrow> row_diff list \<Rightarrow> result" where
  "tallied hs rs =
     \<lparr>headers = hs, rows = rs,
      summary = \<lparr>total_rows = length rs, added = count_status Added rs,
                  deleted = count_status Deleted rs, modified = count_status Modified rs,
                  unchanged = count_status Same rs\<rparr>\<rparr>"

text \<open>The elements of a list in the order of their first occurrence.\<close>

fun uniq :: "'a list \<Rightarrow> 'a list" where
  "uniq [] = []"
| "uniq (x # xs) = x # filter (\<lambda>y. y \<noteq> x) (uniq xs)"

text \<open>
  The key of row \<open>i\<close> as lines 136 and 137 compute it, the entries that the index
  loop assigns in row order, and the non-empty keys of a table in row order.
\<close>

definition key_of :: "dataframe \<Rightarrow> nat \<Rightarrow> nat \<Rightarrow> nat \<Rightarrow> string" where
  "key_of df kc n i =
     (let row = get_row_values df i n in if kc < length row then row ! kc else [])"

definition key_entries :: "dataframe \<Rightarrow> nat \<Rightarrow> nat \<Rightarrow> (string \<times> nat \<times> string list) list" where
  "key_entries df kc n =
     map (\<lambda>i. (key_of df kc n i, (i, get_row_values df i n)))
         (filter (\<lambda>i. key_of df kc n i \<noteq> []) [0..<len_df df])"

definition key_values :: "dataframe \<Rightarrow> nat \<Rightarrow> nat \<Rightarrow> string list" where
  "key_values df kc n = filter (\<lambda>k. k \<noteq> []) (map (key_of df kc n) [0..<len_df df])"

definition all_keys_of :: "dataframe \<Rightarrow> dataframe \<Rightarrow> nat \<Rightarrow> nat \<Rightarrow> string list" where
  "all_keys_of df1 df2 kc n =
     map fst (dict_fromkeys (map fst (build_index df1 kc n) @ map fst (build_index df2 kc n)))"

definition diff_rows :: "dataframe \<Rightarrow> dataframe \<Rightarrow> int option \<Rightarrow> bool \<Rightarrow> row_diff list" where
  "diff_rows df1 df2 key_column case_sensitive =
     (let n = max_cols_of df1 df2
      in if key_matching key_column n
         then map (key_row (build_index df1 (nat (the key_column)) n)
                           (build_index df2 (nat (the key_column)) n) n case_sensitive)
                  (all_keys_of df1 df2 (nat (the key_column)) n)
         else map (pos_row df1 df2 n case_sensitive) [0..<max (len_df df1) (len_df df2)])"

definition merged_headers_of :: "dataframe \<Rightarrow> dataframe \<Rightarrow> string list" where
  "merged_headers_of df1 df2 =
     merge_headers (map safe_str (columns df1)) (map safe_str (columns df2)) (max_cols_of df1 df2)"

text \<open>
  Where the cells of a diff row come from: row \<open>i1\<close> of the original table and row
  \<open>i2\<close> of the compare table.
\<close>

definition cells_from ::
  "dataframe \<Rightarrow> dataframe \<Rightarrow> nat \<Rightarrow> nat \<Rightarrow> nat \<Rightarrow> bool \<Rightarrow> cell list \<Rightarrow> bool" where
  "cells_from df1 df2 n i1 i2 link cs =
     (\<forall>j<length cs.
        (old_value (cs ! j) = None) = (cell_status (cs ! j) \<noteq> Modified) \<and>
        (cell_status (cs ! j) = Modified \<longrightarrow>
           i1 < len_df df1 \<and> i2 < len_df df2 \<and> link \<and>
           old_value (cs ! j) = Some (get_row_values df1 i1 n ! j) \<and>
           cell_value (cs ! j) = get_row_values df2 i2 n ! j))"

subsection \<open>Where a row of the diff comes from\<close>

text \<open>
  \<open>row_from case_sensitive df1 df2 n i1 i2 row\<close>: the cells of \<open>row\<close> are built from
  row \<open>i1\<close> of the original table \<open>df1\<close> and row \<open>i2\<close> of the compare table
  \<open>df2\<close>, both padded to \<open>n\<close> columns. An \<open>added\<close> row holds the strings of the
  compare row, a \<open>deleted\<close> row those of the original row. In a \<open>same\<close> or
  \<open>modified\<close> row every cell holds the compare-side string as \<open>value\<close>; it is
  \<open>same\<close> when \<open>compare_values\<close> accepts the two strings and otherwise
  \<open>modified\<close> with the original-side string as \<open>old_value\<close>; the row is
  \<open>modified\<close> exactly when some cell is.
\<close>

definition paired_from ::
  "bool \<Rightarrow> dataframe \<Rightarrow> dataframe \<Rightarrow> nat \<Rightarrow> nat \<Rightarrow> nat \<Rightarrow> row_diff \<Rightarrow> bool" where
  "paired_from case_sensitive df1 df2 n i1 i2 row =
     (i1 < len_df df1 \<and> i2 < len_df df2 \<and>
      cells row =
        map (\<lambda>j. let v1 = get_row_values df1 i1 n ! j;
                      v2 = get_row_values df2 i2 n ! j
                  in if compare_values v1 v2 case_sensitive
                     then \<lparr>cell_value = v2, old_value = None, cell_status = Same\<rparr>
                     else \<lparr>cell_value = v2, old_value = Some v1, cell_status = Modified\<rparr>)
            [0..<n] \<and>
      (row_status row = Modified) =
        (\<exists>j\<in>{0..<n}. \<not> compare_values (get_row_values df1 i1 n ! j)
                          (get_row_values df2 i2 n ! j) case_sensitive))"

definition row_from ::
  "bool \<Rightarrow> dataframe \<Rightarrow> dataframe \<Rightarrow> nat \<Rightarrow> nat \<Rightarrow> nat \<Rightarrow> row_diff \<Rightarrow> bool" where
  "row_from case_sensitive df1 df2 n i1 i2 row =
     (case row_status row of
        Added \<Rightarrow> i2 < len_df df2 \<and> cells row = map added_cell (get_row_values df2 i2 n)
      | Deleted \<Rightarrow> i1 < len_df df1 \<and> cells row = map deleted_cell (get_row_values df1 i1 n)
      | Modified \<Rightarrow> paired_from case_sensitive df1 df2 n i1 i2 row
      | Same \<Rightarrow> paired_from case_sensitive df1 df2 n i1 i2 row)"

subsection \<open>The key-column strategy in the words of the specification\<close>

text \<open>
  Section 4.3 of the specification: the index of a table maps a key to the last row that
  has it (\<open>spec_index\<close>, empty keys excluded); the keys are iterated in the order of
  first appearance in the first table, then of first new appearance in the second
  (\<open>spec_key_order\<close>); every key gives one row of the diff (\<open>spec_key_rows\<close>).
\<close>

definition spec_index :: "dataframe \<Rightarrow> nat \<Rightarrow> nat \<Rightarrow> string \<Rightarrow> (nat \<times> string list) option" where
  "spec_index df kc n key =
     (if key = [] then None
      else case filter (\<lambda>i. key_of df kc n i = key) (rev [0..<len_df df]) of
             [] \<Rightarrow> None
           | i # _ \<Rightarrow> Some (i, get_row_values df i n))"

definition spec_key_order :: "string list \<Rightarrow> string list \<Rightarrow> string list" where
  "spec_key_order keysA keysB = uniq keysA @ filter (\<lambda>k. k \<notin> set keysA) (uniq keysB)"

definition spec_key_rows :: "dataframe \<Rightarrow> dataframe \<Rightarrow> nat \<Rightarrow> bool \<Rightarrow> row_diff list" where
  "spec_key_rows df1 df2 kc case_sensitive =
     (let n = max_cols_of df1 df2
      in map (\<lambda>key.
                case (spec_index df1 kc n key, spec_index df2 kc n key) of
                  (Some (i1, row1), Some (i2, row2)) \<Rightarrow> paired_row case_sensitive n row1 row2
                | (Some (i1, row1), None) \<Rightarrow>
                    \<lparr>row_status = Deleted, cells = map deleted_cell row1\<rparr>
                | (None, Some (i2, row2)) \<Rightarrow>
                    \<lparr>row_status = Added, cells = map added_cell row2\<rparr>
                | (None, None) \<Rightarrow> \<lparr>row_status = Same, cells = []\<rparr>)
             (spec_key_order (key_values df1 kc n) (key_values df2 kc n)))"

subsection \<open>Swapping the two inputs\<close>

definition swap_status :: "status \<Rightarrow> status" where
  "swap_status st = (case st of Added \<Rightarrow> Deleted | Deleted \<Rightarrow> Added | Modified \<Rightarrow> Modified | Same \<Rightarrow> Same)"

definition swapped_cell :: "bool \<Rightarrow> cell \<Rightarrow> cell \<Rightarrow> bool" where
  "swapped_cell case_sensitive c c' =
     (case cell_status c of
        Added \<Rightarrow> c' = c\<lparr>cell_status := Deleted\<rparr>
      | Deleted \<Rightarrow> c' = c\<lparr>cell_status := Added\<rparr>
      | Modified \<Rightarrow>
          cell_status c' = Modified \<and> old_value c' = Some (cell_value c) \<and>
          old_value c = Some (cell_value c')
      | Same \<Rightarrow>
          cell_status c' = Same \<and> old_value c' = None \<and> old_value c = None \<and>
          compare_values (cell_value c) (cell_value c') case_sensitive)"

definition swapped_row :: "bool \<Rightarrow> row_diff \<Rightarrow> row_diff \<Rightarrow> bool" where
  "swapped_row case_sensitive r r' =
     (row_status r' = swap_status (row_status r) \<and>
      list_all2 (swapped_cell case_sensitive) (cells r) (cells r'))"

definition swap_cell :: "cell \<Rightarrow> cell" where
  "swap_cell c =
     (case cell_status c of
        Added \<Rightarrow> c\<lparr>cell_status := Deleted\<rparr>
      | Deleted \<Rightarrow> c\<lparr>cell_status := Added\<rparr>
      | Modified \<Rightarrow>
          \<lparr>cell_value = the (old_value c), old_value = Some (cell_value c),
           cell_status = Modified\<rparr>
      | Same \<Rightarrow> c)"

definition swap_row :: "row_diff \<Rightarrow> row_diff" where
  "swap_row r = \<lparr>row_status = swap_status (row_status r), cells = map swap_cell (cells r)\<rparr>"

subsection \<open>Example tables\<close>

definition sheet_A :: dataframe where
  "sheet_A = \<lparr>columns = [Some ''id'', Some ''name''],
               df_rows = [[Some ''1'', Some ''Alice''], [Some ''2'', Some ''Bob'']]\<rparr>"

definition sheet_B :: dataframe where
  "sheet_B = \<lparr>columns = [Some ''id'', Some ''name''],
               df_rows = [[Some ''1'', Some ''Alice''], [Some ''3'', Some ''Carol'']]\<rparr>"

definition sheet_Foo :: dataframe where
  "sheet_Foo = \<lparr>columns = [Some ''name''], df_rows = [[Some ''Foo'']]\<rparr>"

definition sheet_foo :: dataframe where
  "sheet_foo = \<lparr>columns = [Some ''name''], df_rows = [[Some ''foo'']]\<rparr>"

definition sheet_foo_Foo :: dataframe where
  "sheet_foo_Foo = \<lparr>columns = [Some ''name''], df_rows = [[Some ''foo''], [Some ''Foo'']]\<rparr>"

definition sheet_dup :: dataframe where
  "sheet_dup = \<lparr>columns = [Some ''id'', Some ''name''],
                 df_rows = [[Some ''1'', Some ''a''], [Some '''', Some ''x''],
                            [Some ''1'', Some ''b'']]\<rparr>"

definition sheet_new :: dataframe where
  "sheet_new = \<lparr>columns = [Some ''id'', Some ''name''],
                 df_rows = [[Some ''2'', Some ''c''], [Some ''1'', Some ''b'']]\<rparr>"

section \<open>Lemmas\<close>

lemma fold_snoc_map: "fold (\<lambda>i acc. acc @ [f i]) xs acc = acc @ map f xs"
  by (induction xs arbitrary: acc) simp_all

lemma merge_headers_map:
  "merge_headers h1 h2 n =
     map (\<lambda>i. if i < length h2 \<and> h2 ! i \<noteq> [] then h2 ! i
               else if i < length h1 then h1 ! i else []) [0..<n]"
  unfolding merge_headers_def Let_def
  by (simp add: fold_snoc_map)

lemma key_cells_fold:
  "fold (\<lambda>col_idx (cells, has_diff).
             let v1 = (if col_idx < length row1 then row1 ! col_idx else []);
                 v2 = (if col_idx < length row2 then row2 ! col_idx else [])
             in if compare_values v1 v2 cs
                then (cells @ [same_cell v2], has_diff)
                else (cells @ [modified_cell v1 v2], True)) xs (acc, d)
   = (acc @ map (\<lambda>i. diff_cell cs (nth_or_empty row1 i) (nth_or_empty row2 i)) xs,
      d \<or> list_ex (\<lambda>c. cell_status c = Modified)
            (map (\<lambda>i. diff_cell cs (nth_or_empty row1 i) (nth_or_empty row2 i)) xs))"
  by (induction xs arbitrary: acc d)
     (auto simp: diff_cell_def nth_or_empty_def same_cell_def modified_cell_def Let_def)

lemma key_cells_eq:
  "key_cells row1 row2 n cs =
     (paired_cells cs n row1 row2,
      list_ex (\<lambda>c. cell_status c = Modified) (paired_cells cs n row1 row2))"
  unfolding key_cells_def paired_cells_def by (simp add: key_cells_fold)

lemma pos_cells_fold:
  "\<forall>i\<in>set xs. i < length row1 \<and> i < length row2 \<Longrightarrow>
   foldM (\<lambda>col_idx (cells, has_diff).
              case list_get row1 col_idx of Inl e \<Rightarrow> Inl e | Inr v1 \<Rightarrow>
              (case list_get row2 col_idx of Inl e \<Rightarrow> Inl e | Inr v2 \<Rightarrow>
                if compare_values v1 v2 cs
                then Inr (cells @ [same_cell v2], has_diff)
                else Inr (cells @ [modified_cell v1 v2], True))) xs (acc, d)
   = Inr (acc @ map (\<lambda>i. diff_cell cs (nth_or_empty row1 i) (nth_or_empty row2 i)) xs,
      d \<or> list_ex (\<lambda>c. cell_status c = Modified)
            (map (\<lambda>i. diff_cell cs (nth_or_empty row1 i) (nth_or_empty row2 i)) xs))"
  by (induction xs arbitrary: acc d)
     (auto simp: diff_cell_def nth_or_empty_def same_cell_def modified_cell_def list_get_def)

lemma pos_cells_eq:
  "n \<le> length row1 \<Longrightarrow> n \<le> length row2 \<Longrightarrow>
   pos_cells row1 row2 n cs =
     Inr (paired_cells cs n row1 row2,
      list_ex (\<lambda>c. cell_status c = Modified) (paired_cells cs n row1 row2))"
  unfolding pos_cells_def paired_cells_def by (simp add: pos_cells_fold)

lemma length_get_row_values [simp]: "length (get_row_values df i n) = n"
  by (simp add: get_row_values_def)

lemma rows_fold_add_row: "rows (fold add_row rs r) = rows r @ rs"
  by (induction rs arbitrary: r) (simp_all add: add_row_def append_row_def)

lemma headers_fold_add_row: "headers (fold add_row rs r) = headers r"
  by (induction rs arbitrary: r) (simp_all add: add_row_def append_row_def)

lemma summary_add_row:
  "added (summary (add_row row r)) = added (summary r) + (if row_status row = Added then 1 else 0)"
  "deleted (summary (add_row row r)) = deleted (summary r) + (if row_status row = Deleted then 1 else 0)"
  "modified (summary (add_row row r)) = modified (summary r) + (if row_status row = Modified then 1 else 0)"
  "unchanged (summary (add_row row r)) = unchanged (summary r) + (if row_status row = Same then 1 else 0)"
  by (cases "row_status row"; simp add: add_row_def append_row_def)+

lemma summary_fold_add_row:
  "added (summary (fold add_row rs r)) = added (summary r) + count_status Added rs"
  "deleted (summary (fold add_row rs r)) = deleted (summary r) + count_status Deleted rs"
  "modified (summary (fold add_row rs r)) = modified (summary r) + count_status Modified rs"
  "unchanged (summary (fold add_row rs r)) = unchanged (summary r) + count_status Same rs"
  by (induction rs arbitrary: r) (simp_all add: summary_add_row count_status_def)

lemma foldM_add_rows:
  "\<forall>x\<in>set xs. \<forall>s. f x s = Inr (add_row (g x) s) \<Longrightarrow>
   foldM f xs s = Inr (fold add_row (map g xs) s)"
  by (induction xs arbitrary: s) simp_all

lemma set_total_rows_fold:
  "set_total_rows (length rs)
     (fold add_row rs \<lparr>headers = hs, rows = [],
        summary = \<lparr>total_rows = 0, added = 0, deleted = 0, modified = 0, unchanged = 0\<rparr>\<rparr>)
   = tallied hs rs"
proof -
  let ?r = "fold add_row rs \<lparr>headers = hs, rows = [],
        summary = \<lparr>total_rows = 0, added = 0, deleted = 0, modified = 0, unchanged = 0\<rparr>\<rparr>"
  have "rows ?r = rs" "headers ?r = hs"
    by (simp_all add: rows_fold_add_row headers_fold_add_row)
  moreover have "added (summary ?r) = count_status Added rs"
    "deleted (summary ?r) = count_status Deleted rs"
    "modified (summary ?r) = count_status Modified rs"
    "unchanged (summary ?r) = count_status Same rs"
    by (simp_all add: summary_fold_add_row)
  ultimately show ?thesis
    by (simp add: set_total_rows_def tallied_def)
qed

lemma key_step_eq:
  "map_of index1 key \<noteq> None \<or> map_of index2 key \<noteq> None \<Longrightarrow>
   key_step index1 index2 n cs key r = Inr (add_row (key_row index1 index2 n cs key) r)"
  by (auto simp: key_step_def key_row_def add_row_def key_cells_eq paired_row_def
           split: option.splits)

lemma pos_step_eq:
  "pos_step df1 df2 n cs i r = Inr (add_row (pos_row df1 df2 n cs i) r)"
  by (simp add: pos_step_def pos_row_def add_row_def pos_cells_eq paired_row_def Let_def)

lemma set_uniq [simp]: "set (uniq xs) = set xs"
  by (induction xs) auto

lemma distinct_uniq [simp]: "distinct (uniq xs)"
  by (induction xs) auto

lemma uniq_distinct: "distinct xs \<Longrightarrow> uniq xs = xs"
proof (induction xs)
  case Nil
  then show ?case by simp
next
  case (Cons x xs)
  then have "filter (\<lambda>y. y \<noteq> x) xs = xs"
    by (auto intro: filter_True)
  with Cons show ?case by simp
qed

lemma fold_update_keys:
  "map fst (fold (\<lambda>(k, v). AList.update k v) kvs d) =
     map fst d @ filter (\<lambda>k. k \<notin> set (map fst d)) (uniq (map fst kvs))"
proof (induction kvs arbitrary: d)
  case Nil
  then show ?case by simp
next
  case (Cons kv kvs)
  obtain k v where kv: "kv = (k, v)" by (cases kv)
  show ?case
  proof (cases "k \<in> set (map fst d)")
    case True
    then have "map fst (AList.update k v d) = map fst d"
      by (simp add: update_keys)
    moreover have "filter (\<lambda>x. x \<notin> set (map fst d)) (filter (\<lambda>y. y \<noteq> k) (uniq (map fst kvs)))
        = filter (\<lambda>x. x \<notin> set (map fst d)) (uniq (map fst kvs))"
      using True by (auto intro: filter_cong)
    ultimately show ?thesis using True Cons.IH [of "AList.update k v d"] kv by simp
  next
    case False
    then have keys: "map fst (AList.update k v d) = map fst d @ [k]"
      by (simp add: update_keys)
    have "filter (\<lambda>x. x \<notin> set (map fst d)) (filter (\<lambda>y. y \<noteq> k) (uniq (map fst kvs)))
        = filter (\<lambda>x. x \<notin> set (map fst d @ [k])) (uniq (map fst kvs))"
      by (auto intro: filter_cong)
    then show ?thesis using False Cons.IH [of "AList.update k v d"] kv keys by simp
  qed
qed

lemma fold_update_map_of:
  "map_of (fold (\<lambda>(k, v). AList.update k v) kvs d) = map_of d ++ map_of (rev kvs)"
proof (induction kvs arbitrary: d)
  case Nil
  then show ?case by simp
next
  case (Cons kv kvs)
  obtain k v where kv: "kv = (k, v)" by (cases kv)
  have "map_of (AList.update k v d) ++ map_of (rev kvs)
      = map_of d ++ (map_of [(k, v)] ++ map_of (rev kvs))"
    by (rule ext) (simp add: update_conv' map_add_def split: option.splits)
  then show ?case using Cons.IH [of "AList.update k v d"] kv by simp
qed

lemma fold_cond_update:
  "fold (\<lambda>x d. if P x then AList.update (kf x) (vf x) d else d) xs d =
     fold (\<lambda>(k, v). AList.update k v) (map (\<lambda>x. (kf x, vf x)) (filter P xs)) d"
  by (induction xs arbitrary: d) simp_all

lemma build_index_fold:
  "build_index df kc n = fold (\<lambda>(k, v). AList.update k v) (key_entries df kc n) []"
proof -
  have "build_index df kc n =
      fold (\<lambda>i d. if key_of df kc n i \<noteq> []
                   then AList.update (key_of df kc n i) (i, get_row_values df i n) d else d)
           [0..<len_df df] []"
    by (simp only: build_index_def key_of_def Let_def)
  then show ?thesis
    by (simp only: fold_cond_update key_entries_def)
qed

lemma keys_build_index:
  "map fst (build_index df kc n) = uniq (map fst (key_entries df kc n))"
  by (simp add: build_index_fold fold_update_keys)

lemma map_of_build_index:
  "map_of (build_index df kc n) = map_of (rev (key_entries df kc n))"
  by (simp add: build_index_fold fold_update_map_of)

lemma keys_dict_fromkeys: "map fst (dict_fromkeys ks) = uniq ks"
proof -
  have "dict_fromkeys ks = fold (\<lambda>(k, v). AList.update k v) (map (\<lambda>k. (k, ())) ks) []"
    by (simp add: dict_fromkeys_def fold_map comp_def)
  then show ?thesis
    by (simp add: fold_update_keys comp_def)
qed

lemma map_of_index_None:
  "map_of (build_index df kc n) key = None \<longleftrightarrow> key \<notin> set (map fst (build_index df kc n))"
  by (simp add: map_of_eq_None_iff)

lemma set_all_keys_of:
  "set (all_keys_of df1 df2 kc n) =
     set (map fst (build_index df1 kc n)) \<union> set (map fst (build_index df2 kc n))"
  by (simp add: all_keys_of_def keys_dict_fromkeys)

lemma key_loop_eq:
  "foldM (key_step (build_index df1 kc n) (build_index df2 kc n) n cs)
         (all_keys_of df1 df2 kc n) r =
   Inr (fold add_row
          (map (key_row (build_index df1 kc n) (build_index df2 kc n) n cs)
               (all_keys_of df1 df2 kc n)) r)"
proof -
  have "\<forall>key\<in>set (all_keys_of df1 df2 kc n). \<forall>s.
          key_step (build_index df1 kc n) (build_index df2 kc n) n cs key s =
          Inr (add_row (key_row (build_index df1 kc n) (build_index df2 kc n) n cs key) s)"
  proof (intro ballI allI)
    fix key s
    assume "key \<in> set (all_keys_of df1 df2 kc n)"
    then have "map_of (build_index df1 kc n) key \<noteq> None \<or> map_of (build_index df2 kc n) key \<noteq> None"
      unfolding set_all_keys_of map_of_index_None by blast
    then show "key_step (build_index df1 kc n) (build_index df2 kc n) n cs key s =
          Inr (add_row (key_row (build_index df1 kc n) (build_index df2 kc n) n cs key) s)"
      by (rule key_step_eq)
  qed
  then show ?thesis
    by (rule foldM_add_rows)
qed

lemma pos_loop_eq:
  "foldM (pos_step df1 df2 n cs) xs r = Inr (fold add_row (map (pos_row df1 df2 n cs) xs) r)"
proof -
  have "\<forall>i\<in>set xs. \<forall>s. pos_step df1 df2 n cs i s = Inr (add_row (pos_row df1 df2 n cs i) s)"
    by (simp add: pos_step_eq)
  then show ?thesis
    by (rule foldM_add_rows)
qed

lemma compare_dataframes_eq:
  "compare_dataframes df1 df2 key_column cs =
     Inr (tallied (merged_headers_of df1 df2) (diff_rows df1 df2 key_column cs))"
proof (cases "key_matching key_column (max_cols_of df1 df2)")
  case True
  define n where "n = max_cols_of df1 df2"
  define kc where "kc = nat (the key_column)"
  define r0 where "r0 = \<lparr>headers = merged_headers_of df1 df2, rows = [],
      summary = \<lparr>total_rows = 0, added = 0, deleted = 0, modified = 0, unchanged = 0\<rparr>\<rparr>"
  define rs where "rs = map (key_row (build_index df1 kc n) (build_index df2 kc n) n cs)
      (all_keys_of df1 df2 kc n)"
  have loop: "foldM (key_step (build_index df1 kc n) (build_index df2 kc n) n cs)
      (all_keys_of df1 df2 kc n) r0 = Inr (fold add_row rs r0)"
    unfolding rs_def by (rule key_loop_eq)
  have "compare_dataframes df1 df2 key_column cs =
      (case foldM (key_step (build_index df1 kc n) (build_index df2 kc n) n cs)
              (all_keys_of df1 df2 kc n) r0 of
         Inl e \<Rightarrow> Inl e | Inr r \<Rightarrow> Inr (set_total_rows (length (rows r)) r))"
    using True
    by (simp only: compare_dataframes_def Let_def n_def kc_def r0_def all_keys_of_def
        merged_headers_of_def if_True)
  also have "\<dots> = Inr (set_total_rows (length rs) (fold add_row rs r0))"
    by (simp only: loop sum.case rows_fold_add_row) (simp add: r0_def)
  also have "\<dots> = Inr (tallied (merged_headers_of df1 df2) rs)"
    by (simp only: r0_def set_total_rows_fold)
  also have "rs = diff_rows df1 df2 key_column cs"
    using True by (simp only: diff_rows_def Let_def rs_def n_def kc_def if_True)
  finally show ?thesis .
next
  case False
  define n where "n = max_cols_of df1 df2"
  define m where "m = max (len_df df1) (len_df df2)"
  define r0 where "r0 = \<lparr>headers = merged_headers_of df1 df2, rows = [],
      summary = \<lparr>total_rows = 0, added = 0, deleted = 0, modified = 0, unchanged = 0\<rparr>\<rparr>"
  define rs where "rs = map (pos_row df1 df2 n cs) [0..<m]"
  have len: "length rs = m"
    by (simp add: rs_def)
  have loop: "foldM (pos_step df1 df2 n cs) [0..<m] r0 = Inr (fold add_row rs r0)"
    unfolding rs_def by (rule pos_loop_eq)
  have "compare_dataframes df1 df2 key_column cs =
      (case foldM (pos_step df1 df2 n cs) [0..<m] r0 of
         Inl e \<Rightarrow> Inl e | Inr r \<Rightarrow> Inr (set_total_rows m r))"
    using False
    by (simp only: compare_dataframes_def Let_def n_def m_def r0_def
        merged_headers_of_def if_False)
  also have "\<dots> = Inr (set_total_rows (length rs) (fold add_row rs r0))"
    by (simp only: loop sum.case len)
  also have "\<dots> = Inr (tallied (merged_headers_of df1 df2) rs)"
    by (simp only: r0_def set_total_rows_fold)
  also have "rs = diff_rows df1 df2 key_column cs"
    using False by (simp only: diff_rows_def Let_def rs_def n_def m_def if_False)
  finally show ?thesis .
qed

lemma count_status_partition:
  "count_status Added rs + count_status Deleted rs + count_status Modified rs
     + count_status Same rs = length rs"
proof (induction rs)
  case Nil
  then show ?case by (simp add: count_status_def)
next
  case (Cons r rs)
  then show ?case by (cases "row_status r") (simp_all add: count_status_def)
qed

lemma rows_tallied [simp]: "rows (tallied hs rs) = rs"
  and headers_tallied [simp]: "headers (tallied hs rs) = hs"
  and summary_tallied [simp]:
    "total_rows (summary (tallied hs rs)) = length rs"
    "added (summary (tallied hs rs)) = count_status Added rs"
    "deleted (summary (tallied hs rs)) = count_status Deleted rs"
    "modified (summary (tallied hs rs)) = count_status Modified rs"
    "unchanged (summary (tallied hs rs)) = count_status Same rs"
  by (simp_all add: tallied_def)

lemma map_fst_key_entries: "map fst (key_entries df kc n) = key_values df kc n"
  by (simp add: key_entries_def key_values_def filter_map comp_def)

lemma set_keys_build_index:
  "set (map fst (build_index df kc n)) = set (key_values df kc n)"
  by (simp only: keys_build_index map_fst_key_entries set_uniq)

lemma map_of_build_index_SomeD:
  assumes "map_of (build_index df kc n) key = Some (i, row)"
  shows "i < len_df df \<and> row = get_row_values df i n \<and> key_of df kc n i = key \<and> key \<noteq> []"
proof -
  from assms have "(key, (i, row)) \<in> set (rev (key_entries df kc n))"
    by (simp only: map_of_build_index map_of_SomeD)
  then show ?thesis
    by (auto simp: key_entries_def)
qed

lemma map_of_build_index_None_iff:
  "map_of (build_index df kc n) key = None \<longleftrightarrow> key \<notin> set (key_values df kc n)"
  by (simp only: map_of_index_None set_keys_build_index)

lemma length_paired_cells [simp]: "length (paired_cells cs n r1 r2) = n"
  by (simp add: paired_cells_def)

lemma nth_paired_cells:
  "j < n \<Longrightarrow> paired_cells cs n r1 r2 ! j = diff_cell cs (nth_or_empty r1 j) (nth_or_empty r2 j)"
  by (simp add: paired_cells_def)

lemma compare_values_refl [simp]: "compare_values v v cs"
  by (simp add: compare_values_def)

lemma compare_values_sym: "compare_values a b cs = compare_values b a cs"
  by (auto simp: compare_values_def)

lemma paired_cells_refl_Same:
  "c \<in> set (paired_cells cs n r r) \<Longrightarrow> cell_status c = Same"
  by (auto simp: paired_cells_def diff_cell_def same_cell_def)

lemma paired_row_refl_Same: "row_status (paired_row cs n r r) = Same"
  by (auto simp: paired_row_def list_ex_iff dest: paired_cells_refl_Same)

lemma cells_paired_row [simp]: "cells (paired_row cs n r1 r2) = paired_cells cs n r1 r2"
  by (simp add: paired_row_def)

lemma count_status_all:
  "\<forall>row\<in>set rs. row_status row = st \<Longrightarrow>
   count_status st' rs = (if st' = st then length rs else 0)"
  by (induction rs) (auto simp: count_status_def)

lemma count_status_none:
  "\<forall>row\<in>set rs. row_status row \<noteq> st \<Longrightarrow> count_status st rs = 0"
  by (induction rs) (auto simp: count_status_def)

lemma diff_rows_key:
  "key_matching key_column (max_cols_of df1 df2) \<Longrightarrow>
   diff_rows df1 df2 key_column cs =
     map (key_row (build_index df1 (nat (the key_column)) (max_cols_of df1 df2))
                  (build_index df2 (nat (the key_column)) (max_cols_of df1 df2))
                  (max_cols_of df1 df2) cs)
         (all_keys_of df1 df2 (nat (the key_column)) (max_cols_of df1 df2))"
  by (simp add: diff_rows_def Let_def)

lemma diff_rows_pos:
  "\<not> key_matching key_column (max_cols_of df1 df2) \<Longrightarrow>
   diff_rows df1 df2 key_column cs =
     map (pos_row df1 df2 (max_cols_of df1 df2) cs) [0..<max (len_df df1) (len_df df2)]"
  by (simp add: diff_rows_def Let_def)

lemma self_diff_rows_Same:
  assumes "row \<in> set (diff_rows df df key_column cs)"
  shows "row_status row = Same \<and> (\<forall>c\<in>set (cells row). cell_status c = Same)"
proof (cases "key_matching key_column (max_cols_of df df)")
  case True
  define n where "n = max_cols_of df df"
  define kc where "kc = nat (the key_column)"
  from assms True obtain key where key: "key \<in> set (all_keys_of df df kc n)"
    and row: "row = key_row (build_index df kc n) (build_index df kc n) n cs key"
    by (auto simp: diff_rows_key n_def kc_def)
  from key have "map_of (build_index df kc n) key \<noteq> None"
    by (simp add: set_all_keys_of map_of_index_None)
  then obtain i r where "map_of (build_index df kc n) key = Some (i, r)"
    by auto
  then have "row = paired_row cs n r r"
    by (simp add: row key_row_def)
  then show ?thesis
    by (auto simp: paired_row_refl_Same dest: paired_cells_refl_Same)
next
  case False
  define n where "n = max_cols_of df df"
  from assms False obtain i where "i < len_df df" and "row = pos_row df df n cs i"
    by (auto simp: diff_rows_pos n_def)
  then have "row = paired_row cs n (get_row_values df i n) (get_row_values df i n)"
    by (simp add: pos_row_def)
  then show ?thesis
    by (auto simp: paired_row_refl_Same dest: paired_cells_refl_Same)
qed

lemma disjoint_key_rows:
  assumes km: "key_matching key_column (max_cols_of df1 df2)"
    and disj: "set (key_values df1 (nat (the key_column)) (max_cols_of df1 df2)) \<inter>
               set (key_values df2 (nat (the key_column)) (max_cols_of df1 df2)) = {}"
    and row: "row \<in> set (diff_rows df1 df2 key_column cs)"
  shows "(row_status row = Added \<and> (\<forall>c\<in>set (cells row). cell_status c = Added)) \<or>
         (row_status row = Deleted \<and> (\<forall>c\<in>set (cells row). cell_status c = Deleted))"
proof -
  define n where "n = max_cols_of df1 df2"
  define kc where "kc = nat (the key_column)"
  from row km obtain key where key: "key \<in> set (all_keys_of df1 df2 kc n)"
    and eq: "row = key_row (build_index df1 kc n) (build_index df2 kc n) n cs key"
    by (auto simp: diff_rows_key n_def kc_def)
  from key have some: "map_of (build_index df1 kc n) key \<noteq> None \<or>
      map_of (build_index df2 kc n) key \<noteq> None"
    by (simp add: set_all_keys_of map_of_index_None)
  from disj have "key \<notin> set (key_values df1 kc n) \<or> key \<notin> set (key_values df2 kc n)"
    unfolding n_def kc_def by blast
  then have none: "map_of (build_index df1 kc n) key = None \<or>
      map_of (build_index df2 kc n) key = None"
    by (simp only: map_of_build_index_None_iff)
  show ?thesis
  proof (cases "map_of (build_index df1 kc n) key")
    case None
    with some obtain i r where "map_of (build_index df2 kc n) key = Some (i, r)"
      by auto
    with None have "row = \<lparr>row_status = Added, cells = map added_cell r\<rparr>"
      by (simp add: eq key_row_def)
    then show ?thesis
      by (auto simp: added_cell_def)
  next
    case (Some v)
    obtain i r where v: "v = (i, r)" by (cases v)
    from Some none have "map_of (build_index df2 kc n) key = None"
      by simp
    with Some v have "row = \<lparr>row_status = Deleted, cells = map deleted_cell r\<rparr>"
      by (simp add: eq key_row_def)
    then show ?thesis
      by (auto simp: deleted_cell_def)
  qed
qed

lemma diff_cell_old_value:
  "(old_value (diff_cell cs a b) = None) = (cell_status (diff_cell cs a b) \<noteq> Modified)"
  "cell_status (diff_cell cs a b) = Modified \<Longrightarrow> old_value (diff_cell cs a b) = Some a"
  "cell_value (diff_cell cs a b) = b"
  by (auto simp: diff_cell_def same_cell_def modified_cell_def split: if_splits)

lemma nth_or_empty_get_row_values:
  "j < n \<Longrightarrow> nth_or_empty (get_row_values df i n) j = get_row_values df i n ! j"
  by (simp add: nth_or_empty_def)

lemma cells_from_paired:
  "i1 < len_df df1 \<Longrightarrow> i2 < len_df df2 \<Longrightarrow> link \<Longrightarrow>
   cells_from df1 df2 n i1 i2 link
     (paired_cells cs n (get_row_values df1 i1 n) (get_row_values df2 i2 n))"
  by (simp add: cells_from_def nth_paired_cells diff_cell_old_value
      nth_or_empty_get_row_values)

lemma cells_from_one_sided:
  "cells_from df1 df2 n i1 i2 link (map added_cell r)"
  "cells_from df1 df2 n i1 i2 link (map deleted_cell r)"
  by (simp_all add: cells_from_def added_cell_def deleted_cell_def)

lemma key_row_cells_from:
  "\<exists>i1 i2. cells_from df1 df2 n i1 i2 (key_of df1 kc n i1 = key_of df2 kc n i2)
     (cells (key_row (build_index df1 kc n) (build_index df2 kc n) n cs key))"
proof (cases "map_of (build_index df1 kc n) key")
  case None
  show ?thesis
  proof (cases "map_of (build_index df2 kc n) key")
    case None
    with \<open>map_of (build_index df1 kc n) key = None\<close>
    have "cells (key_row (build_index df1 kc n) (build_index df2 kc n) n cs key) = []"
      by (simp add: key_row_def)
    then show ?thesis
      by (simp add: cells_from_def)
  next
    case (Some v2)
    obtain i2 r2 where "v2 = (i2, r2)" by (cases v2)
    with Some \<open>map_of (build_index df1 kc n) key = None\<close>
    have "cells (key_row (build_index df1 kc n) (build_index df2 kc n) n cs key) =
        map added_cell r2"
      by (simp add: key_row_def)
    then show ?thesis
      using cells_from_one_sided(1) [of df1 df2 n 0 0 "key_of df1 kc n 0 = key_of df2 kc n 0" r2]
      by auto
  qed
next
  case (Some v1)
  obtain i1 r1 where v1: "v1 = (i1, r1)" by (cases v1)
  show ?thesis
  proof (cases "map_of (build_index df2 kc n) key")
    case None
    with Some v1
    have "cells (key_row (build_index df1 kc n) (build_index df2 kc n) n cs key) =
        map deleted_cell r1"
      by (simp add: key_row_def)
    then show ?thesis
      using cells_from_one_sided(2) [of df1 df2 n 0 0 "key_of df1 kc n 0 = key_of df2 kc n 0" r1]
      by auto
  next
    case (Some v2)
    obtain i2 r2 where v2: "v2 = (i2, r2)" by (cases v2)
    from \<open>map_of (build_index df1 kc n) key = Some v1\<close> v1
    have 1: "i1 < len_df df1" "r1 = get_row_values df1 i1 n" "key_of df1 kc n i1 = key"
      by (auto dest: map_of_build_index_SomeD)
    from Some v2
    have 2: "i2 < len_df df2" "r2 = get_row_values df2 i2 n" "key_of df2 kc n i2 = key"
      by (auto dest: map_of_build_index_SomeD)
    have "cells (key_row (build_index df1 kc n) (build_index df2 kc n) n cs key) =
        paired_cells cs n (get_row_values df1 i1 n) (get_row_values df2 i2 n)"
      using \<open>map_of (build_index df1 kc n) key = Some v1\<close> Some v1 v2 1 2
      by (simp add: key_row_def)
    moreover have "cells_from df1 df2 n i1 i2 (key_of df1 kc n i1 = key_of df2 kc n i2)
        (paired_cells cs n (get_row_values df1 i1 n) (get_row_values df2 i2 n))"
      using 1 2 by (intro cells_from_paired) simp_all
    ultimately show ?thesis
      by auto
  qed
qed

lemma pos_row_cells_from:
  "cells_from df1 df2 n p p True (cells (pos_row df1 df2 n cs p))"
  by (simp add: pos_row_def cells_from_one_sided cells_from_paired)

lemma map_of_map_filter:
  "map_of (map (\<lambda>i. (kf i, vf i)) ys) key =
     (case filter (\<lambda>i. kf i = key) ys of [] \<Rightarrow> None | i # _ \<Rightarrow> Some (vf i))"
  by (induction ys) simp_all

lemma rev_key_entries:
  "rev (key_entries df kc n) =
     map (\<lambda>i. (key_of df kc n i, (i, get_row_values df i n)))
         (filter (\<lambda>i. key_of df kc n i \<noteq> []) (rev [0..<len_df df]))"
  by (simp only: key_entries_def rev_map rev_filter)

lemma map_of_build_index_spec:
  "map_of (build_index df kc n) key = spec_index df kc n key"
proof (cases "key = []")
  case True
  then have "filter (\<lambda>i. key_of df kc n i = key)
      (filter (\<lambda>i. key_of df kc n i \<noteq> []) (rev [0..<len_df df])) = []"
    by (simp add: filter_empty_conv)
  with True show ?thesis
    by (simp only: map_of_build_index rev_key_entries map_of_map_filter spec_index_def)
       simp
next
  case False
  then have "filter (\<lambda>i. key_of df kc n i = key)
      (filter (\<lambda>i. key_of df kc n i \<noteq> []) (rev [0..<len_df df])) =
      filter (\<lambda>i. key_of df kc n i = key) (rev [0..<len_df df])"
    by (auto intro: filter_cong)
  with False show ?thesis
    by (simp only: map_of_build_index rev_key_entries map_of_map_filter spec_index_def)
       (simp split: list.splits)
qed

lemma uniq_append: "uniq (xs @ ys) = uniq xs @ filter (\<lambda>y. y \<notin> set xs) (uniq ys)"
proof (induction xs)
  case Nil
  then show ?case by simp
next
  case (Cons x xs)
  have "filter (\<lambda>y. y \<noteq> x) (filter (\<lambda>y. y \<notin> set xs) (uniq ys)) =
      filter (\<lambda>y. y \<notin> set (x # xs)) (uniq ys)"
    by (auto intro: filter_cong)
  with Cons show ?case by simp
qed

lemma all_keys_of_spec:
  "all_keys_of df1 df2 kc n = spec_key_order (key_values df1 kc n) (key_values df2 kc n)"
proof -
  have "all_keys_of df1 df2 kc n =
      uniq (uniq (key_values df1 kc n) @ uniq (key_values df2 kc n))"
    by (simp only: all_keys_of_def keys_dict_fromkeys keys_build_index map_fst_key_entries)
  also have "\<dots> = uniq (uniq (key_values df1 kc n)) @
      filter (\<lambda>k. k \<notin> set (uniq (key_values df1 kc n))) (uniq (uniq (key_values df2 kc n)))"
    by (rule uniq_append)
  also have "\<dots> = spec_key_order (key_values df1 kc n) (key_values df2 kc n)"
    by (simp add: uniq_distinct spec_key_order_def)
  finally show ?thesis .
qed

lemma key_row_spec:
  "key_row (build_index df1 kc n) (build_index df2 kc n) n cs =
     (\<lambda>key. case (spec_index df1 kc n key, spec_index df2 kc n key) of
        (Some (i1, row1), Some (i2, row2)) \<Rightarrow> paired_row cs n row1 row2
      | (Some (i1, row1), None) \<Rightarrow> \<lparr>row_status = Deleted, cells = map deleted_cell row1\<rparr>
      | (None, Some (i2, row2)) \<Rightarrow> \<lparr>row_status = Added, cells = map added_cell row2\<rparr>
      | (None, None) \<Rightarrow> \<lparr>row_status = Same, cells = []\<rparr>)"
  by (rule ext) (simp only: key_row_def map_of_build_index_spec)

lemma distinct_spec_key_order: "distinct (spec_key_order a b)"
  by (auto simp: spec_key_order_def)

lemma set_spec_key_order: "set (spec_key_order a b) = set a \<union> set b"
  by (auto simp: spec_key_order_def)

lemma length_spec_key_order: "length (spec_key_order a b) = card (set a \<union> set b)"
  using distinct_card [OF distinct_spec_key_order [of a b]]
  by (simp add: set_spec_key_order)

lemma key_of_nth: "kc < n \<Longrightarrow> key_of df kc n i = get_row_values df i n ! kc"
  by (simp add: key_of_def)

lemma key_matching_lt: "key_matching key_column n \<Longrightarrow> nat (the key_column) < n"
  by (auto simp: key_matching_def split: option.splits)

lemma map_of_build_index_SomeE:
  assumes "key \<in> set (key_values df kc n)"
  obtains i where "i < len_df df" "key_of df kc n i = key"
    "map_of (build_index df kc n) key = Some (i, get_row_values df i n)"
proof -
  from assms have "map_of (build_index df kc n) key \<noteq> None"
    by (simp only: map_of_build_index_None_iff) simp
  then obtain i r where some: "map_of (build_index df kc n) key = Some (i, r)"
    by auto
  from map_of_build_index_SomeD [OF some] some that show thesis
    by blast
qed

lemma one_sided_key_rows:
  assumes "key \<in> set (key_values df1 kc n)" "key \<notin> set (key_values df2 kc n)"
  shows "\<exists>i<len_df df1. key_of df1 kc n i = key \<and>
           key_row (build_index df1 kc n) (build_index df2 kc n) n cs key =
             \<lparr>row_status = Deleted, cells = map deleted_cell (get_row_values df1 i n)\<rparr> \<and>
           key_row (build_index df2 kc n) (build_index df1 kc n) n cs key =
             \<lparr>row_status = Added, cells = map added_cell (get_row_values df1 i n)\<rparr>"
proof -
  from assms(1) obtain i where i: "i < len_df df1" "key_of df1 kc n i = key"
    "map_of (build_index df1 kc n) key = Some (i, get_row_values df1 i n)"
    by (rule map_of_build_index_SomeE)
  from assms(2) have "map_of (build_index df2 kc n) key = None"
    by (simp add: map_of_build_index_None_iff)
  with i show ?thesis
    by (auto simp: key_row_def)
qed

lemma matched_key_row:
  assumes kc: "kc < n"
    and key: "key \<in> set (all_keys_of df1 df2 kc n)"
    and st: "row_status (key_row (build_index df1 kc n) (build_index df2 kc n) n cs key) = Same \<or>
             row_status (key_row (build_index df1 kc n) (build_index df2 kc n) n cs key) = Modified"
  shows "key \<in> set (key_values df1 kc n) \<and> key \<in> set (key_values df2 kc n) \<and>
         cell_value (cells (key_row (build_index df1 kc n) (build_index df2 kc n) n cs key) ! kc)
           = key"
proof -
  from key have some: "map_of (build_index df1 kc n) key \<noteq> None \<or>
      map_of (build_index df2 kc n) key \<noteq> None"
    by (simp add: set_all_keys_of map_of_index_None)
  with st obtain i1 r1 i2 r2 where 1: "map_of (build_index df1 kc n) key = Some (i1, r1)"
    and 2: "map_of (build_index df2 kc n) key = Some (i2, r2)"
    by (cases "map_of (build_index df1 kc n) key"; cases "map_of (build_index df2 kc n) key")
       (auto simp: key_row_def)
  from map_of_build_index_SomeD [OF 2] kc have r2: "r2 ! kc = key" "length r2 = n"
    by (auto simp: key_of_nth)
  have "cells (key_row (build_index df1 kc n) (build_index df2 kc n) n cs key) ! kc =
      diff_cell cs (nth_or_empty r1 kc) (nth_or_empty r2 kc)"
    using 1 2 kc by (simp add: key_row_def nth_paired_cells)
  then have "cell_value (cells (key_row (build_index df1 kc n) (build_index df2 kc n) n cs key) ! kc)
      = key"
    using r2 kc by (simp add: diff_cell_old_value nth_or_empty_def)
  moreover from 1 2 have "key \<in> set (key_values df1 kc n)" "key \<in> set (key_values df2 kc n)"
    using map_of_build_index_None_iff [of df1 kc n key]
      map_of_build_index_None_iff [of df2 kc n key] by auto
  ultimately show ?thesis by simp
qed

lemma swapped_diff_cell: "swapped_cell cs (diff_cell cs a b) (diff_cell cs b a)"
  using compare_values_sym [of a b cs]
  by (auto simp: swapped_cell_def diff_cell_def same_cell_def modified_cell_def)

lemma swapped_one_sided_cell:
  "swapped_cell cs (added_cell v) (deleted_cell v)"
  "swapped_cell cs (deleted_cell v) (added_cell v)"
  by (simp_all add: swapped_cell_def added_cell_def deleted_cell_def)

lemma diff_cell_Modified_iff:
  "cell_status (diff_cell cs a b) = Modified \<longleftrightarrow> \<not> compare_values a b cs"
  by (simp add: diff_cell_def same_cell_def modified_cell_def)

lemma list_ex_paired_cells:
  "list_ex (\<lambda>c. cell_status c = Modified) (paired_cells cs n r1 r2) \<longleftrightarrow>
     (\<exists>j<n. \<not> compare_values (nth_or_empty r1 j) (nth_or_empty r2 j) cs)"
  by (simp add: list_ex_iff paired_cells_def diff_cell_Modified_iff Bex_def)

lemma swapped_paired_row: "swapped_row cs (paired_row cs n r1 r2) (paired_row cs n r2 r1)"
proof -
  have "list_ex (\<lambda>c. cell_status c = Modified) (paired_cells cs n r1 r2) =
      list_ex (\<lambda>c. cell_status c = Modified) (paired_cells cs n r2 r1)"
    by (simp only: list_ex_paired_cells compare_values_sym [of "nth_or_empty r1 _"])
  moreover have "list_all2 (swapped_cell cs) (paired_cells cs n r1 r2) (paired_cells cs n r2 r1)"
    by (simp add: list_all2_conv_all_nth nth_paired_cells swapped_diff_cell)
  ultimately show ?thesis
    by (simp add: swapped_row_def paired_row_def swap_status_def)
qed

lemma swapped_one_sided_row:
  "swapped_row cs \<lparr>row_status = Added, cells = map added_cell r\<rparr>
                  \<lparr>row_status = Deleted, cells = map deleted_cell r\<rparr>"
  "swapped_row cs \<lparr>row_status = Deleted, cells = map deleted_cell r\<rparr>
                  \<lparr>row_status = Added, cells = map added_cell r\<rparr>"
  by (simp_all add: swapped_row_def swap_status_def list_all2_map1 list_all2_map2
      list_all2_same swapped_one_sided_cell)

lemma swapped_empty_row:
  "swapped_row cs \<lparr>row_status = Same, cells = []\<rparr> \<lparr>row_status = Same, cells = []\<rparr>"
  by (simp add: swapped_row_def swap_status_def)

lemma swapped_key_row:
  "swapped_row cs (key_row index1 index2 n cs key) (key_row index2 index1 n cs key)"
  by (cases "map_of index1 key"; cases "map_of index2 key")
     (auto simp: key_row_def swapped_paired_row swapped_one_sided_row swapped_empty_row)

lemma swapped_pos_row:
  "i < max (len_df df1) (len_df df2) \<Longrightarrow>
   swapped_row cs (pos_row df1 df2 n cs i) (pos_row df2 df1 n cs i)"
  by (auto simp: pos_row_def swapped_paired_row swapped_one_sided_row)

lemma max_cols_of_commute: "max_cols_of df1 df2 = max_cols_of df2 df1"
  by (simp add: max_cols_of_def max.commute)

lemma distinct_all_keys_of: "distinct (all_keys_of df1 df2 kc n)"
  by (simp add: all_keys_of_def keys_dict_fromkeys)

lemma mset_all_keys_of_commute:
  "mset (all_keys_of df1 df2 kc n) = mset (all_keys_of df2 df1 kc n)"
proof -
  have "set (all_keys_of df1 df2 kc n) = set (all_keys_of df2 df1 kc n)"
    by (simp only: set_all_keys_of Un_commute)
  then show ?thesis
    using distinct_all_keys_of set_eq_iff_mset_eq_distinct by blast
qed

lemma list_all2_swapped_map:
  "\<forall>x\<in>set xs. swapped_row cs (f x) (g x) \<Longrightarrow> list_all2 (swapped_row cs) (map f xs) (map g xs)"
  by (simp add: list_all2_map1 list_all2_map2 list_all2_same)

lemma swapped_pos_rows:
  assumes "\<not> key_matching key_column (max_cols_of df1 df2)"
  shows "list_all2 (swapped_row cs) (diff_rows df1 df2 key_column cs)
           (diff_rows df2 df1 key_column cs)"
proof -
  from assms have 2: "\<not> key_matching key_column (max_cols_of df2 df1)"
    by (simp add: max_cols_of_commute)
  have "diff_rows df2 df1 key_column cs =
      map (pos_row df2 df1 (max_cols_of df1 df2) cs) [0..<max (len_df df1) (len_df df2)]"
    by (simp add: diff_rows_pos [OF 2] max_cols_of_commute [of df2 df1] max.commute)
  then show ?thesis
    by (simp only: diff_rows_pos [OF assms])
       (rule list_all2_swapped_map, simp add: swapped_pos_row)
qed

lemma swapped_key_rows:
  assumes "key_matching key_column (max_cols_of df1 df2)"
  shows "rel_mset (swapped_row cs) (mset (diff_rows df1 df2 key_column cs))
           (mset (diff_rows df2 df1 key_column cs))"
proof -
  define n where "n = max_cols_of df1 df2"
  define kc where "kc = nat (the key_column)"
  define f where "f = key_row (build_index df1 kc n) (build_index df2 kc n) n cs"
  define g where "g = key_row (build_index df2 kc n) (build_index df1 kc n) n cs"
  from assms have 2: "key_matching key_column (max_cols_of df2 df1)"
    by (simp add: max_cols_of_commute)
  have 1: "diff_rows df1 df2 key_column cs = map f (all_keys_of df1 df2 kc n)"
    by (simp add: diff_rows_key [OF assms] f_def n_def kc_def)
  have "diff_rows df2 df1 key_column cs = map g (all_keys_of df2 df1 kc n)"
    by (simp add: diff_rows_key [OF 2] g_def n_def kc_def max_cols_of_commute [of df2 df1])
  then have "mset (diff_rows df2 df1 key_column cs) = mset (map g (all_keys_of df1 df2 kc n))"
    by (simp add: mset_all_keys_of_commute [of df2 df1])
  moreover have "list_all2 (swapped_row cs) (map f (all_keys_of df1 df2 kc n))
      (map g (all_keys_of df1 df2 kc n))"
    by (rule list_all2_swapped_map) (simp add: f_def g_def swapped_key_row)
  ultimately show ?thesis
    unfolding rel_mset_def 1
    by (intro exI [of _ "map f (all_keys_of df1 df2 kc n)"]
          exI [of _ "map g (all_keys_of df1 df2 kc n)"]) simp
qed

lemma list_all2_rel_mset: "list_all2 R xs ys \<Longrightarrow> rel_mset R (mset xs) (mset ys)"
  unfolding rel_mset_def by blast

lemma swapped_cell_True: "swapped_cell True c c' \<Longrightarrow> c' = swap_cell c"
  by (cases "cell_status c")
     (auto simp: swapped_cell_def swap_cell_def compare_values_def intro: cell.equality)

lemma list_all2_fun: "list_all2 R xs ys \<Longrightarrow> (\<And>x y. R x y \<Longrightarrow> y = f x) \<Longrightarrow> ys = map f xs"
  by (induction rule: list_all2_induct) simp_all

lemma swapped_row_True: "swapped_row True r r' \<Longrightarrow> r' = swap_row r"
  using list_all2_fun [of "swapped_cell True" "cells r" "cells r'" swap_cell]
  by (auto simp: swapped_row_def swap_row_def swapped_cell_True intro: row_diff.equality)

lemma rel_mset_fun:
  assumes "rel_mset R M N" and "\<And>x y. R x y \<Longrightarrow> y = f x"
  shows "N = image_mset f M"
proof -
  from assms(1) obtain xs ys where "mset xs = M" "mset ys = N" "list_all2 R xs ys"
    unfolding rel_mset_def by blast
  with list_all2_fun [of R xs ys f] assms(2) show ?thesis
    by auto
qed

lemma compare_dataframes_out_of_range:
  "\<not> key_matching key_column (max_cols_of df1 df2) \<Longrightarrow>
   compare_dataframes df1 df2 key_column cs = compare_dataframes df1 df2 None cs"
  by (simp add: compare_dataframes_eq diff_rows_pos key_matching_def)

lemma key_col_idx_unparseable:
  "\<not> isdigit (upper (strip s)) \<Longrightarrow>
   \<not> (length (upper (strip s)) = 1 \<and> isalpha (upper (strip s))) \<Longrightarrow>
   key_col_idx (Some s) = Inr None"
  by (auto simp: key_col_idx_def Let_def)

lemma key_col_idx_decimal:
  "s \<noteq> [] \<Longrightarrow> upper (strip s) \<noteq> [] \<Longrightarrow> list_all isdecimal_cp (upper (strip s)) \<Longrightarrow>
   length (upper (strip s)) \<le> int_max_str_digits \<Longrightarrow>
   \<exists>v. key_col_idx (Some s) = Inr (Some v)"
  by (auto simp: key_col_idx_def Let_def isdigit_def py_int_def isdigit_cp_def isdecimal_cp_def
      list_all_iff)

lemma key_col_idx_raises_iff:
  "key_col_idx key_column = Inl e \<longleftrightarrow>
     e = ValueError \<and>
     (\<exists>s. key_column = Some s \<and> s \<noteq> [] \<and> isdigit (upper (strip s)) \<and>
          (\<not> list_all isdecimal_cp (upper (strip s)) \<or>
           int_max_str_digits < length (upper (strip s))))"
  by (cases key_column)
     (auto simp: key_col_idx_def Let_def py_int_def isdigit_def split: if_splits)

lemma paired_cells_get_row_values:
  "paired_cells cs n (get_row_values df1 i1 n) (get_row_values df2 i2 n) =
     map (\<lambda>j. let v1 = get_row_values df1 i1 n ! j;
                   v2 = get_row_values df2 i2 n ! j
               in if compare_values v1 v2 cs
                  then \<lparr>cell_value = v2, old_value = None, cell_status = Same\<rparr>
                  else \<lparr>cell_value = v2, old_value = Some v1, cell_status = Modified\<rparr>)
         [0..<n]"
  unfolding paired_cells_def
  by (rule map_cong)
     (simp_all add: diff_cell_def nth_or_empty_def same_cell_def modified_cell_def)

lemma row_status_paired_row:
  "row_status (paired_row cs n r1 r2) = Same \<or> row_status (paired_row cs n r1 r2) = Modified"
  by (simp add: paired_row_def)

lemma paired_row_Modified_iff:
  "row_status (paired_row cs n (get_row_values df1 i1 n) (get_row_values df2 i2 n)) = Modified
     \<longleftrightarrow> (\<exists>j<n. \<not> compare_values (get_row_values df1 i1 n ! j)
                     (get_row_values df2 i2 n ! j) cs)"
proof -
  have "(\<exists>j<n. \<not> compare_values (nth_or_empty (get_row_values df1 i1 n) j)
                  (nth_or_empty (get_row_values df2 i2 n) j) cs) =
        (\<exists>j<n. \<not> compare_values (get_row_values df1 i1 n ! j)
                  (get_row_values df2 i2 n ! j) cs)"
    by (auto simp: nth_or_empty_def)
  then show ?thesis
    by (simp add: paired_row_def list_ex_paired_cells)
qed

lemma paired_row_from:
  assumes "i1 < len_df df1" "i2 < len_df df2"
  shows "row_from cs df1 df2 n i1 i2
     (paired_row cs n (get_row_values df1 i1 n) (get_row_values df2 i2 n))"
proof -
  let ?row = "paired_row cs n (get_row_values df1 i1 n) (get_row_values df2 i2 n)"
  have "paired_from cs df1 df2 n i1 i2 ?row"
    unfolding paired_from_def
    using assms paired_row_Modified_iff [of cs n df1 i1 df2 i2]
    by (simp add: paired_cells_get_row_values Bex_def)
  with row_status_paired_row [of cs n "get_row_values df1 i1 n" "get_row_values df2 i2 n"]
  show ?thesis
    by (auto simp: row_from_def)
qed

lemma one_sided_row_from:
  "i2 < len_df df2 \<Longrightarrow>
   row_from cs df1 df2 n i1 i2
     \<lparr>row_status = Added, cells = map added_cell (get_row_values df2 i2 n)\<rparr>"
  "i1 < len_df df1 \<Longrightarrow>
   row_from cs df1 df2 n i1 i2
     \<lparr>row_status = Deleted, cells = map deleted_cell (get_row_values df1 i1 n)\<rparr>"
  by (simp_all add: row_from_def)

lemma pos_row_from:
  assumes "p < max (len_df df1) (len_df df2)"
  shows "row_from cs df1 df2 n p p (pos_row df1 df2 n cs p)"
  using assms
  by (auto simp: pos_row_def one_sided_row_from paired_row_from)

lemma key_row_from:
  assumes "key \<in> set (all_keys_of df1 df2 kc n)"
  shows "\<exists>i1 i2.
      row_from cs df1 df2 n i1 i2 (key_row (build_index df1 kc n) (build_index df2 kc n) n cs key) \<and>
      row_from cs df2 df1 n i2 i1 (key_row (build_index df2 kc n) (build_index df1 kc n) n cs key)"
proof -
  let ?m1 = "map_of (build_index df1 kc n) key"
  let ?m2 = "map_of (build_index df2 kc n) key"
  from assms have some: "?m1 \<noteq> None \<or> ?m2 \<noteq> None"
    by (simp add: set_all_keys_of map_of_index_None)
  show ?thesis
  proof (cases ?m1)
    case None
    with some obtain i2 r2 where 2: "?m2 = Some (i2, r2)"
      by auto
    from map_of_build_index_SomeD [OF 2]
    have i2: "i2 < len_df df2" "r2 = get_row_values df2 i2 n"
      by simp_all
    have "row_from cs df1 df2 n 0 i2
        (key_row (build_index df1 kc n) (build_index df2 kc n) n cs key)"
      using None 2 i2 by (simp add: key_row_def one_sided_row_from)
    moreover have "row_from cs df2 df1 n i2 0
        (key_row (build_index df2 kc n) (build_index df1 kc n) n cs key)"
      using None 2 i2 by (simp add: key_row_def one_sided_row_from)
    ultimately show ?thesis by blast
  next
    case (Some v1)
    obtain i1 r1 where v1: "v1 = (i1, r1)" by (cases v1)
    from Some v1 have 1: "?m1 = Some (i1, r1)" by simp
    from map_of_build_index_SomeD [OF 1]
    have i1: "i1 < len_df df1" "r1 = get_row_values df1 i1 n"
      by simp_all
    show ?thesis
    proof (cases ?m2)
      case None
      have "row_from cs df1 df2 n i1 0
          (key_row (build_index df1 kc n) (build_index df2 kc n) n cs key)"
        using None 1 i1 by (simp add: key_row_def one_sided_row_from)
      moreover have "row_from cs df2 df1 n 0 i1
          (key_row (build_index df2 kc n) (build_index df1 kc n) n cs key)"
        using None 1 i1 by (simp add: key_row_def one_sided_row_from)
      ultimately show ?thesis by blast
    next
      case (Some v2)
      obtain i2 r2 where v2: "v2 = (i2, r2)" by (cases v2)
      from Some v2 have 2: "?m2 = Some (i2, r2)" by simp
      from map_of_build_index_SomeD [OF 2]
      have i2: "i2 < len_df df2" "r2 = get_row_values df2 i2 n"
        by simp_all
      have "row_from cs df1 df2 n i1 i2
          (key_row (build_index df1 kc n) (build_index df2 kc n) n cs key)"
        using 1 2 i1 i2 by (simp add: key_row_def paired_row_from)
      moreover have "row_from cs df2 df1 n i2 i1
          (key_row (build_index df2 kc n) (build_index df1 kc n) n cs key)"
        using 1 2 i1 i2 by (simp add: key_row_def paired_row_from)
      ultimately show ?thesis by blast
    qed
  qed
qed

lemma list_all2_map_same:
  "\<forall>x\<in>set xs. R (f x) (g x) \<Longrightarrow> list_all2 R (map f xs) (map g xs)"
  by (simp add: list_all2_map1 list_all2_map2 list_all2_same)

lemma diff_rows_from:
  assumes "p < length (diff_rows df1 df2 key_column cs)"
  shows "\<exists>i1 i2. (\<not> key_matching key_column (max_cols_of df1 df2) \<longrightarrow> i1 = p \<and> i2 = p) \<and>
           row_from cs df1 df2 (max_cols_of df1 df2) i1 i2 (diff_rows df1 df2 key_column cs ! p)"
proof (cases "key_matching key_column (max_cols_of df1 df2)")
  case True
  define n where "n = max_cols_of df1 df2"
  define kc where "kc = nat (the key_column)"
  from True assms have p: "p < length (all_keys_of df1 df2 kc n)"
    and row: "diff_rows df1 df2 key_column cs ! p =
      key_row (build_index df1 kc n) (build_index df2 kc n) n cs (all_keys_of df1 df2 kc n ! p)"
    by (simp_all add: diff_rows_key n_def kc_def)
  from p have "all_keys_of df1 df2 kc n ! p \<in> set (all_keys_of df1 df2 kc n)"
    by simp
  from key_row_from [OF this, of cs] True row show ?thesis
    unfolding n_def by auto
next
  case False
  with assms have p: "p < max (len_df df1) (len_df df2)"
    and row: "diff_rows df1 df2 key_column cs ! p = pos_row df1 df2 (max_cols_of df1 df2) cs p"
    by (simp_all add: diff_rows_pos)
  from pos_row_from [OF p, of cs "max_cols_of df1 df2"] row
  have "row_from cs df1 df2 (max_cols_of df1 df2) p p (diff_rows df1 df2 key_column cs ! p)"
    by simp
  then show ?thesis
    by blast
qed

lemma swapped_from_pos_rows:
  assumes "\<not> key_matching key_column (max_cols_of df1 df2)"
    and "p < length (diff_rows df1 df2 key_column cs)"
  shows "row_from cs df1 df2 (max_cols_of df1 df2) p p (diff_rows df1 df2 key_column cs ! p) \<and>
         row_from cs df2 df1 (max_cols_of df1 df2) p p (diff_rows df2 df1 key_column cs ! p)"
proof -
  from assms(1) have 2: "\<not> key_matching key_column (max_cols_of df2 df1)"
    by (simp add: max_cols_of_commute)
  from assms have p: "p < max (len_df df1) (len_df df2)"
    by (simp add: diff_rows_pos)
  then have p': "p < max (len_df df2) (len_df df1)"
    by (simp add: max.commute)
  have "diff_rows df1 df2 key_column cs ! p = pos_row df1 df2 (max_cols_of df1 df2) cs p"
    using assms(1) p by (simp add: diff_rows_pos)
  moreover have "diff_rows df2 df1 key_column cs ! p = pos_row df2 df1 (max_cols_of df1 df2) cs p"
    using 2 p' by (simp add: diff_rows_pos max_cols_of_commute [of df2 df1])
  ultimately show ?thesis
    using pos_row_from [OF p, of cs "max_cols_of df1 df2"]
      pos_row_from [OF p', of cs "max_cols_of df1 df2"]
    by simp
qed

lemma swapped_from_rows:
  "rel_mset (\<lambda>x y. swapped_row cs x y \<and>
              (\<exists>i1 i2. row_from cs df1 df2 (max_cols_of df1 df2) i1 i2 x \<and>
                       row_from cs df2 df1 (max_cols_of df1 df2) i2 i1 y))
     (mset (diff_rows df1 df2 key_column cs)) (mset (diff_rows df2 df1 key_column cs))"
proof (cases "key_matching key_column (max_cols_of df1 df2)")
  case True
  define n where "n = max_cols_of df1 df2"
  define kc where "kc = nat (the key_column)"
  define f where "f = key_row (build_index df1 kc n) (build_index df2 kc n) n cs"
  define g where "g = key_row (build_index df2 kc n) (build_index df1 kc n) n cs"
  let ?R = "\<lambda>x y. swapped_row cs x y \<and>
      (\<exists>i1 i2. row_from cs df1 df2 n i1 i2 x \<and> row_from cs df2 df1 n i2 i1 y)"
  from True have 2: "key_matching key_column (max_cols_of df2 df1)"
    by (simp add: max_cols_of_commute)
  have 1: "diff_rows df1 df2 key_column cs = map f (all_keys_of df1 df2 kc n)"
    by (simp add: diff_rows_key [OF True] f_def n_def kc_def)
  have "diff_rows df2 df1 key_column cs = map g (all_keys_of df2 df1 kc n)"
    by (simp add: diff_rows_key [OF 2] g_def n_def kc_def max_cols_of_commute [of df2 df1])
  then have 3: "mset (diff_rows df2 df1 key_column cs) = mset (map g (all_keys_of df1 df2 kc n))"
    by (simp add: mset_all_keys_of_commute [of df2 df1])
  have "\<forall>key\<in>set (all_keys_of df1 df2 kc n). ?R (f key) (g key)"
    using key_row_from [of _ df1 df2 kc n cs] swapped_key_row
    unfolding f_def g_def by blast
  then have "list_all2 ?R (map f (all_keys_of df1 df2 kc n)) (map g (all_keys_of df1 df2 kc n))"
    by (rule list_all2_map_same)
  then have "rel_mset ?R (mset (map f (all_keys_of df1 df2 kc n)))
      (mset (map g (all_keys_of df1 df2 kc n)))"
    by (rule list_all2_rel_mset)
  then show ?thesis
    unfolding 1 3 n_def .
next
  case False
  let ?R = "\<lambda>x y. swapped_row cs x y \<and>
      (\<exists>i1 i2. row_from cs df1 df2 (max_cols_of df1 df2) i1 i2 x \<and>
               row_from cs df2 df1 (max_cols_of df1 df2) i2 i1 y)"
  let ?rs = "diff_rows df1 df2 key_column cs"
  let ?rs' = "diff_rows df2 df1 key_column cs"
  have sw: "list_all2 (swapped_row cs) ?rs ?rs'"
    using False by (rule swapped_pos_rows)
  then have len: "length ?rs = length ?rs'"
    by (rule list_all2_lengthD)
  have "?R (?rs ! p) (?rs' ! p)" if "p < length ?rs" for p
    using sw that swapped_from_pos_rows [OF False that]
    by (auto simp: list_all2_conv_all_nth)
  with len have "list_all2 ?R ?rs ?rs'"
    by (simp add: list_all2_conv_all_nth)
  then show ?thesis
    by (rule list_all2_rel_mset)
qed

lemma of_char_lower_char:
  "(of_char (lower_char c) :: nat) =
     (let k = of_char c
      in if (65 \<le> k \<and> k \<le> 90) \<or> (192 \<le> k \<and> k \<le> 222 \<and> k \<noteq> 215) then k + 32 else k)"
  by (auto simp: lower_char_def Let_def)

lemma pos_cells_explicit:
  assumes "n \<le> length row1" "n \<le> length row2"
  shows "pos_cells row1 row2 n cs =
     Inr (map (\<lambda>j. if compare_values (row1 ! j) (row2 ! j) cs
                    then \<lparr>cell_value = row2 ! j, old_value = None, cell_status = Same\<rparr>
                    else \<lparr>cell_value = row2 ! j, old_value = Some (row1 ! j),
                          cell_status = Modified\<rparr>) [0..<n],
          \<exists>j\<in>{0..<n}. \<not> compare_values (row1 ! j) (row2 ! j) cs)"
proof -
  have nth: "nth_or_empty row1 j = row1 ! j" "nth_or_empty row2 j = row2 ! j" if "j < n" for j
    using assms that by (simp_all add: nth_or_empty_def)
  have 1: "paired_cells cs n row1 row2 =
      map (\<lambda>j. if compare_values (row1 ! j) (row2 ! j) cs
                then \<lparr>cell_value = row2 ! j, old_value = None, cell_status = Same\<rparr>
                else \<lparr>cell_value = row2 ! j, old_value = Some (row1 ! j),
                      cell_status = Modified\<rparr>) [0..<n]"
    unfolding paired_cells_def
    by (rule map_cong) (simp_all add: nth diff_cell_def same_cell_def modified_cell_def)
  have "list_ex (\<lambda>c. cell_status c = Modified) (paired_cells cs n row1 row2) =
      (\<exists>j<n. \<not> compare_values (nth_or_empty row1 j) (nth_or_empty row2 j) cs)"
    by (rule list_ex_paired_cells)
  also have "\<dots> = (\<exists>j\<in>{0..<n}. \<not> compare_values (row1 ! j) (row2 ! j) cs)"
    using nth by (simp add: Bex_def cong: conj_cong)
  finally have 2: "list_ex (\<lambda>c. cell_status c = Modified) (paired_cells cs n row1 row2) =
      (\<exists>j\<in>{0..<n}. \<not> compare_values (row1 ! j) (row2 ! j) cs)" .
  show ?thesis
    by (simp only: pos_cells_eq [OF assms] 2) (simp only: 1)
qed

section \<open>The claims\<close>

subsection \<open>C1\<close>

text \<open>
  C1 (amended). Swapping the two inputs of the sheet diff, for either strategy. A row
  \<open>x\<close> of the one diff and the matching row \<open>y\<close> of the other are built from the
  same two table rows with the roles exchanged (\<open>row_from\<close> for \<open>df1\<close>, \<open>df2\<close>
  and for \<open>df2\<close>, \<open>df1\<close>) and are related by \<open>swapped_row\<close>: row and cell status
  \<open>added\<close> and \<open>deleted\<close> are exchanged with the same cell values, a
  \<open>modified\<close> cell has \<open>value\<close> and \<open>old_value\<close> exchanged, and a \<open>same\<close>
  cell stays \<open>same\<close>. A \<open>same\<close> cell carries the compare-side string of its own
  diff: the string of \<open>df2\<close> in the diff of \<open>df1\<close> against \<open>df2\<close>, the string of
  \<open>df1\<close> in the other, two strings that \<open>compare_values\<close> accepts. Under positional
  matching the rows correspond position by position. Under key matching they correspond
  as multisets: the row order follows the key order of the first input, so a row may
  change its position. When \<open>case_sensitive\<close> is true a \<open>same\<close> cell is unchanged,
  and the second diff is the image of the first under \<open>swap_row\<close>.
\<close>

theorem swap_inputs:
  "\<exists>r r'. compare_dataframes df1 df2 key_column case_sensitive = Inr r \<and>
     compare_dataframes df2 df1 key_column case_sensitive = Inr r' \<and>
     rel_mset (\<lambda>x y. swapped_row case_sensitive x y \<and>
                (\<exists>i1 i2. row_from case_sensitive df1 df2 (max_cols_of df1 df2) i1 i2 x \<and>
                         row_from case_sensitive df2 df1 (max_cols_of df1 df2) i2 i1 y))
       (mset (rows r)) (mset (rows r')) \<and>
     (\<not> key_matching key_column (max_cols_of df1 df2) \<longrightarrow>
        list_all2 (swapped_row case_sensitive) (rows r) (rows r') \<and>
        (\<forall>p<length (rows r).
           row_from case_sensitive df1 df2 (max_cols_of df1 df2) p p (rows r ! p) \<and>
           row_from case_sensitive df2 df1 (max_cols_of df1 df2) p p (rows r' ! p))) \<and>
     (case_sensitive \<longrightarrow> mset (rows r') = image_mset swap_row (mset (rows r))) \<and>
     (case_sensitive \<and> \<not> key_matching key_column (max_cols_of df1 df2) \<longrightarrow>
        rows r' = map swap_row (rows r))"
proof -
  let ?rs = "diff_rows df1 df2 key_column case_sensitive"
  let ?rs' = "diff_rows df2 df1 key_column case_sensitive"
  let ?r = "tallied (merged_headers_of df1 df2) ?rs"
  let ?r' = "tallied (merged_headers_of df2 df1) ?rs'"
  have pos: "list_all2 (swapped_row case_sensitive) ?rs ?rs'"
    if "\<not> key_matching key_column (max_cols_of df1 df2)"
    using that by (rule swapped_pos_rows)
  have from_pos: "\<forall>p<length ?rs.
      row_from case_sensitive df1 df2 (max_cols_of df1 df2) p p (?rs ! p) \<and>
      row_from case_sensitive df2 df1 (max_cols_of df1 df2) p p (?rs' ! p)"
    if "\<not> key_matching key_column (max_cols_of df1 df2)"
    using swapped_from_pos_rows [OF that] by blast
  have rel: "rel_mset (swapped_row case_sensitive) (mset ?rs) (mset ?rs')"
  proof (cases "key_matching key_column (max_cols_of df1 df2)")
    case True
    then show ?thesis by (rule swapped_key_rows)
  next
    case False
    then show ?thesis by (intro list_all2_rel_mset pos)
  qed
  have msetT: "mset ?rs' = image_mset swap_row (mset ?rs)" if case_sensitive
    using rel that rel_mset_fun [of "swapped_row True" "mset ?rs" "mset ?rs'" swap_row]
    by (simp add: swapped_row_True)
  have mapT: "?rs' = map swap_row ?rs"
    if case_sensitive "\<not> key_matching key_column (max_cols_of df1 df2)"
    using pos that list_all2_fun [of "swapped_row True" ?rs ?rs' swap_row]
    by (simp add: swapped_row_True)
  have srel: "rel_mset (\<lambda>x y. swapped_row case_sensitive x y \<and>
                (\<exists>i1 i2. row_from case_sensitive df1 df2 (max_cols_of df1 df2) i1 i2 x \<and>
                         row_from case_sensitive df2 df1 (max_cols_of df1 df2) i2 i1 y))
       (mset ?rs) (mset ?rs')"
    by (rule swapped_from_rows)
  have "compare_dataframes df1 df2 key_column case_sensitive = Inr ?r"
    "compare_dataframes df2 df1 key_column case_sensitive = Inr ?r'"
    by (rule compare_dataframes_eq)+
  with srel pos from_pos msetT mapT show ?thesis
    by (intro exI [of _ ?r] exI [of _ ?r']) simp
qed

theorem swap_inputs_witness:
  "\<not> key_matching None (max_cols_of sheet_A sheet_B) \<and>
   compare_dataframes sheet_A sheet_B None True =
     Inr \<lparr>headers = [''id'', ''name''],
          rows = [\<lparr>row_status = Same,
                   cells = [\<lparr>cell_value = ''1'', old_value = None, cell_status = Same\<rparr>,
                            \<lparr>cell_value = ''Alice'', old_value = None, cell_status = Same\<rparr>]\<rparr>,
                  \<lparr>row_status = Modified,
                   cells = [\<lparr>cell_value = ''3'', old_value = Some ''2'',
                             cell_status = Modified\<rparr>,
                            \<lparr>cell_value = ''Carol'', old_value = Some ''Bob'',
                             cell_status = Modified\<rparr>]\<rparr>],
          summary = \<lparr>total_rows = 2, added = 0, deleted = 0, modified = 1, unchanged = 1\<rparr>\<rparr> \<and>
   compare_dataframes sheet_B sheet_A None True =
     Inr \<lparr>headers = [''id'', ''name''],
          rows = [\<lparr>row_status = Same,
                   cells = [\<lparr>cell_value = ''1'', old_value = None, cell_status = Same\<rparr>,
                            \<lparr>cell_value = ''Alice'', old_value = None, cell_status = Same\<rparr>]\<rparr>,
                  \<lparr>row_status = Modified,
                   cells = [\<lparr>cell_value = ''2'', old_value = Some ''3'',
                             cell_status = Modified\<rparr>,
                            \<lparr>cell_value = ''Bob'', old_value = Some ''Carol'',
                             cell_status = Modified\<rparr>]\<rparr>],
          summary = \<lparr>total_rows = 2, added = 0, deleted = 0, modified = 1, unchanged = 1\<rparr>\<rparr> \<and>
   map swap_row
     [\<lparr>row_status = Same,
       cells = [\<lparr>cell_value = ''1'', old_value = None, cell_status = Same\<rparr>,
                \<lparr>cell_value = ''Alice'', old_value = None, cell_status = Same\<rparr>]\<rparr>,
      \<lparr>row_status = Modified,
       cells = [\<lparr>cell_value = ''3'', old_value = Some ''2'', cell_status = Modified\<rparr>,
                \<lparr>cell_value = ''Carol'', old_value = Some ''Bob'',
                 cell_status = Modified\<rparr>]\<rparr>] =
     [\<lparr>row_status = Same,
       cells = [\<lparr>cell_value = ''1'', old_value = None, cell_status = Same\<rparr>,
                \<lparr>cell_value = ''Alice'', old_value = None, cell_status = Same\<rparr>]\<rparr>,
      \<lparr>row_status = Modified,
       cells = [\<lparr>cell_value = ''2'', old_value = Some ''3'', cell_status = Modified\<rparr>,
                \<lparr>cell_value = ''Bob'', old_value = Some ''Carol'',
                 cell_status = Modified\<rparr>]\<rparr>] \<and>
   row_from True sheet_A sheet_B (max_cols_of sheet_A sheet_B) 1 1
     \<lparr>row_status = Modified,
      cells = [\<lparr>cell_value = ''3'', old_value = Some ''2'', cell_status = Modified\<rparr>,
               \<lparr>cell_value = ''Carol'', old_value = Some ''Bob'',
                cell_status = Modified\<rparr>]\<rparr> \<and>
   row_from True sheet_B sheet_A (max_cols_of sheet_A sheet_B) 1 1
     \<lparr>row_status = Modified,
      cells = [\<lparr>cell_value = ''2'', old_value = Some ''3'', cell_status = Modified\<rparr>,
               \<lparr>cell_value = ''Bob'', old_value = Some ''Carol'',
                cell_status = Modified\<rparr>]\<rparr>"
proof -
  have km: "\<not> key_matching None (max_cols_of sheet_A sheet_B)"
    by (simp add: key_matching_def)
  have e1: "compare_dataframes sheet_A sheet_B None True =
     Inr \<lparr>headers = [''id'', ''name''],
          rows = [\<lparr>row_status = Same,
                   cells = [\<lparr>cell_value = ''1'', old_value = None, cell_status = Same\<rparr>,
                            \<lparr>cell_value = ''Alice'', old_value = None, cell_status = Same\<rparr>]\<rparr>,
                  \<lparr>row_status = Modified,
                   cells = [\<lparr>cell_value = ''3'', old_value = Some ''2'',
                             cell_status = Modified\<rparr>,
                            \<lparr>cell_value = ''Carol'', old_value = Some ''Bob'',
                             cell_status = Modified\<rparr>]\<rparr>],
          summary = \<lparr>total_rows = 2, added = 0, deleted = 0, modified = 1, unchanged = 1\<rparr>\<rparr>"
    by code_simp
  have e2: "compare_dataframes sheet_B sheet_A None True =
     Inr \<lparr>headers = [''id'', ''name''],
          rows = [\<lparr>row_status = Same,
                   cells = [\<lparr>cell_value = ''1'', old_value = None, cell_status = Same\<rparr>,
                            \<lparr>cell_value = ''Alice'', old_value = None, cell_status = Same\<rparr>]\<rparr>,
                  \<lparr>row_status = Modified,
                   cells = [\<lparr>cell_value = ''2'', old_value = Some ''3'',
                             cell_status = Modified\<rparr>,
                            \<lparr>cell_value = ''Bob'', old_value = Some ''Carol'',
                             cell_status = Modified\<rparr>]\<rparr>],
          summary = \<lparr>total_rows = 2, added = 0, deleted = 0, modified = 1, unchanged = 1\<rparr>\<rparr>"
    by code_simp
  from swap_inputs [of sheet_A sheet_B None True] km e1 e2
  have "row_from True sheet_A sheet_B (max_cols_of sheet_A sheet_B) 1 1
     \<lparr>row_status = Modified,
      cells = [\<lparr>cell_value = ''3'', old_value = Some ''2'', cell_status = Modified\<rparr>,
               \<lparr>cell_value = ''Carol'', old_value = Some ''Bob'',
                cell_status = Modified\<rparr>]\<rparr> \<and>
   row_from True sheet_B sheet_A (max_cols_of sheet_A sheet_B) 1 1
     \<lparr>row_status = Modified,
      cells = [\<lparr>cell_value = ''2'', old_value = Some ''3'', cell_status = Modified\<rparr>,
               \<lparr>cell_value = ''Bob'', old_value = Some ''Carol'',
                cell_status = Modified\<rparr>]\<rparr>"
    by auto
  moreover from swap_inputs [of sheet_A sheet_B None True] km e1 e2
  have "map swap_row
     [\<lparr>row_status = Same,
       cells = [\<lparr>cell_value = ''1'', old_value = None, cell_status = Same\<rparr>,
                \<lparr>cell_value = ''Alice'', old_value = None, cell_status = Same\<rparr>]\<rparr>,
      \<lparr>row_status = Modified,
       cells = [\<lparr>cell_value = ''3'', old_value = Some ''2'', cell_status = Modified\<rparr>,
                \<lparr>cell_value = ''Carol'', old_value = Some ''Bob'',
                 cell_status = Modified\<rparr>]\<rparr>] =
     [\<lparr>row_status = Same,
       cells = [\<lparr>cell_value = ''1'', old_value = None, cell_status = Same\<rparr>,
                \<lparr>cell_value = ''Alice'', old_value = None, cell_status = Same\<rparr>]\<rparr>,
      \<lparr>row_status = Modified,
       cells = [\<lparr>cell_value = ''2'', old_value = Some ''3'', cell_status = Modified\<rparr>,
                \<lparr>cell_value = ''Bob'', old_value = Some ''Carol'',
                 cell_status = Modified\<rparr>]\<rparr>]"
    by auto
  ultimately show ?thesis
    using km e1 e2 by simp
qed

text \<open>
  The claim as stated lets every \<open>same\<close> row keep its position and its cell values.
  With \<open>case_sensitive\<close> false the \<open>same\<close> cell of \<open>Foo\<close> against \<open>foo\<close>
  carries \<open>foo\<close> in one direction and \<open>Foo\<close> in the other; under key matching
  the \<open>same\<close> row of key \<open>Foo\<close> is first in one direction and second in the other.
\<close>

theorem swap_inputs_counterexample:
  "compare_dataframes sheet_Foo sheet_foo None False =
     Inr \<lparr>headers = [''name''],
          rows = [\<lparr>row_status = Same,
                   cells = [\<lparr>cell_value = ''foo'', old_value = None,
                             cell_status = Same\<rparr>]\<rparr>],
          summary = \<lparr>total_rows = 1, added = 0, deleted = 0, modified = 0, unchanged = 1\<rparr>\<rparr> \<and>
   compare_dataframes sheet_foo sheet_Foo None False =
     Inr \<lparr>headers = [''name''],
          rows = [\<lparr>row_status = Same,
                   cells = [\<lparr>cell_value = ''Foo'', old_value = None,
                             cell_status = Same\<rparr>]\<rparr>],
          summary = \<lparr>total_rows = 1, added = 0, deleted = 0, modified = 0, unchanged = 1\<rparr>\<rparr> \<and>
   compare_dataframes sheet_Foo sheet_foo_Foo (Some 0) True =
     Inr \<lparr>headers = [''name''],
          rows = [\<lparr>row_status = Same,
                   cells = [\<lparr>cell_value = ''Foo'', old_value = None,
                             cell_status = Same\<rparr>]\<rparr>,
                  \<lparr>row_status = Added,
                   cells = [\<lparr>cell_value = ''foo'', old_value = None,
                             cell_status = Added\<rparr>]\<rparr>],
          summary = \<lparr>total_rows = 2, added = 1, deleted = 0, modified = 0, unchanged = 1\<rparr>\<rparr> \<and>
   compare_dataframes sheet_foo_Foo sheet_Foo (Some 0) True =
     Inr \<lparr>headers = [''name''],
          rows = [\<lparr>row_status = Deleted,
                   cells = [\<lparr>cell_value = ''foo'', old_value = None,
                             cell_status = Deleted\<rparr>]\<rparr>,
                  \<lparr>row_status = Same,
                   cells = [\<lparr>cell_value = ''Foo'', old_value = None,
                             cell_status = Same\<rparr>]\<rparr>],
          summary = \<lparr>total_rows = 2, added = 0, deleted = 1, modified = 0, unchanged = 1\<rparr>\<rparr> \<and>
   \<lparr>row_status = Same,
    cells = [\<lparr>cell_value = ''foo'', old_value = None, cell_status = Same\<rparr>]\<rparr> \<noteq>
   \<lparr>row_status = Same,
    cells = [\<lparr>cell_value = ''Foo'', old_value = None, cell_status = Same\<rparr>]\<rparr>"
  by (intro conjI; (code_simp | simp))

subsection \<open>C2\<close>

text \<open>
  C2. Under key-column matching the diff is computed by the steps of the specification.
  Each index maps a key to the last row of its table that has this key at the key column
  (rows padded with empty strings), so a later row overwrites an earlier one; the empty
  string is never a key of an index. The keys are iterated in the order of first
  appearance among the keys of the original table, then of first new appearance among
  the keys of the compare table, unsorted. The rows of the diff are the rows that
  \<open>spec_key_rows\<close> builds from \<open>spec_index\<close> and \<open>spec_key_order\<close>, one for each
  distinct non-empty key.
\<close>

theorem key_matching_steps:
  assumes "key_matching key_column (max_cols_of df1 df2)"
  shows "map_of (build_index df (nat (the key_column)) n) = spec_index df (nat (the key_column)) n \<and>
    [] \<notin> set (map fst (build_index df (nat (the key_column)) n)) \<and>
    map fst (dict_fromkeys
        (map fst (build_index df1 (nat (the key_column)) (max_cols_of df1 df2)) @
         map fst (build_index df2 (nat (the key_column)) (max_cols_of df1 df2)))) =
      spec_key_order (key_values df1 (nat (the key_column)) (max_cols_of df1 df2))
                     (key_values df2 (nat (the key_column)) (max_cols_of df1 df2)) \<and>
    (\<exists>r. compare_dataframes df1 df2 key_column case_sensitive = Inr r \<and>
         rows r = spec_key_rows df1 df2 (nat (the key_column)) case_sensitive \<and>
         length (rows r) =
           card (set (key_values df1 (nat (the key_column)) (max_cols_of df1 df2)) \<union>
                 set (key_values df2 (nat (the key_column)) (max_cols_of df1 df2))))"
proof (intro conjI)
  show "map_of (build_index df (nat (the key_column)) n) = spec_index df (nat (the key_column)) n"
    by (rule ext) (rule map_of_build_index_spec)
  show "[] \<notin> set (map fst (build_index df (nat (the key_column)) n))"
    by (simp only: set_keys_build_index) (simp add: key_values_def)
  show "map fst (dict_fromkeys
        (map fst (build_index df1 (nat (the key_column)) (max_cols_of df1 df2)) @
         map fst (build_index df2 (nat (the key_column)) (max_cols_of df1 df2)))) =
      spec_key_order (key_values df1 (nat (the key_column)) (max_cols_of df1 df2))
                     (key_values df2 (nat (the key_column)) (max_cols_of df1 df2))"
    using all_keys_of_spec [of df1 df2 "nat (the key_column)" "max_cols_of df1 df2"]
    by (simp only: all_keys_of_def)
  have eq: "diff_rows df1 df2 key_column case_sensitive =
      spec_key_rows df1 df2 (nat (the key_column)) case_sensitive"
    using assms
    by (simp only: diff_rows_key all_keys_of_spec spec_key_rows_def Let_def key_row_spec)
  have len: "length (spec_key_rows df1 df2 (nat (the key_column)) case_sensitive) =
      card (set (key_values df1 (nat (the key_column)) (max_cols_of df1 df2)) \<union>
            set (key_values df2 (nat (the key_column)) (max_cols_of df1 df2)))"
    by (simp add: spec_key_rows_def Let_def length_spec_key_order)
  have "rows (tallied (merged_headers_of df1 df2)
      (diff_rows df1 df2 key_column case_sensitive)) =
      spec_key_rows df1 df2 (nat (the key_column)) case_sensitive"
    using eq by simp
  with len show "\<exists>r. compare_dataframes df1 df2 key_column case_sensitive = Inr r \<and>
         rows r = spec_key_rows df1 df2 (nat (the key_column)) case_sensitive \<and>
         length (rows r) =
           card (set (key_values df1 (nat (the key_column)) (max_cols_of df1 df2)) \<union>
                 set (key_values df2 (nat (the key_column)) (max_cols_of df1 df2)))"
    using compare_dataframes_eq by metis
qed

theorem key_matching_steps_witness:
  "key_matching (Some 0) (max_cols_of sheet_dup sheet_new) \<and>
   compare_dataframes sheet_dup sheet_new (Some 0) True =
     Inr \<lparr>headers = [''id'', ''name''],
          rows = [\<lparr>row_status = Same,
                   cells = [\<lparr>cell_value = ''1'', old_value = None, cell_status = Same\<rparr>,
                            \<lparr>cell_value = ''b'', old_value = None, cell_status = Same\<rparr>]\<rparr>,
                  \<lparr>row_status = Added,
                   cells = [\<lparr>cell_value = ''2'', old_value = None, cell_status = Added\<rparr>,
                            \<lparr>cell_value = ''c'', old_value = None, cell_status = Added\<rparr>]\<rparr>],
          summary = \<lparr>total_rows = 2, added = 1, deleted = 0, modified = 0, unchanged = 1\<rparr>\<rparr> \<and>
   spec_key_rows sheet_dup sheet_new (nat (the (Some 0))) True =
     [\<lparr>row_status = Same,
       cells = [\<lparr>cell_value = ''1'', old_value = None, cell_status = Same\<rparr>,
                \<lparr>cell_value = ''b'', old_value = None, cell_status = Same\<rparr>]\<rparr>,
      \<lparr>row_status = Added,
       cells = [\<lparr>cell_value = ''2'', old_value = None, cell_status = Added\<rparr>,
                \<lparr>cell_value = ''c'', old_value = None, cell_status = Added\<rparr>]\<rparr>]"
proof -
  have km: "key_matching (Some 0) (max_cols_of sheet_dup sheet_new)"
    by code_simp
  have e: "compare_dataframes sheet_dup sheet_new (Some 0) True =
     Inr \<lparr>headers = [''id'', ''name''],
          rows = [\<lparr>row_status = Same,
                   cells = [\<lparr>cell_value = ''1'', old_value = None, cell_status = Same\<rparr>,
                            \<lparr>cell_value = ''b'', old_value = None, cell_status = Same\<rparr>]\<rparr>,
                  \<lparr>row_status = Added,
                   cells = [\<lparr>cell_value = ''2'', old_value = None, cell_status = Added\<rparr>,
                            \<lparr>cell_value = ''c'', old_value = None, cell_status = Added\<rparr>]\<rparr>],
          summary = \<lparr>total_rows = 2, added = 1, deleted = 0, modified = 0, unchanged = 1\<rparr>\<rparr>"
    by code_simp
  from key_matching_steps [OF km, of sheet_dup 2 True] km e show ?thesis
    by auto
qed

subsection \<open>C3\<close>

text \<open>
  C3. The claim: an out-of-range or unparseable key-column specification falls back to
  positional matching and never raises. \<open>compare_dataframes_out_of_range\<close> and
  \<open>key_col_idx_unparseable\<close> above show the fallback for an index out of range and for
  a specification that \<open>isdigit\<close> and \<open>isalpha\<close> both reject. The specification
  made of the superscript two (U+00B2) is not a decimal digit string, yet \<open>isdigit\<close> accepts it and
  \<open>int\<close> raises \<open>ValueError\<close>: evaluated here.
\<close>

theorem superscript_digit_raises:
  "key_col_idx (Some [CHR 0xB2]) = Inl ValueError \<and>
   compare_excel_files sheets1 file1_name sheets2 file2_name sheet_name
     (Some [CHR 0xB2]) case_sensitive = Inl ValueError"
proof -
  have "key_col_idx (Some [CHR 0xB2]) = Inl ValueError"
    by code_simp
  then show ?thesis
    by (simp add: compare_excel_files_def)
qed

subsection \<open>C4\<close>

text \<open>
  C4. With \<open>case_sensitive\<close> true \<open>compare_values\<close> is equality of the two
  strings; with \<open>case_sensitive\<close> false it is equality of their lower-cased copies,
  where \<open>lower\<close> is \<open>str.lower\<close>: it keeps the length and maps the code points 65
  to 90 and 192 to 222 except 215 to the code point 32 above, leaving every other one.
  Two empty strings always compare equal. Both cell loops, the one of the key branch
  and the one of the positional branch, emit the original strings: \<open>value\<close> is the
  compare-side string and \<open>old_value\<close>, when present, the original-side string. So
  does every row that \<open>compare_dataframes\<close> returns, under either strategy
  (\<open>row_from\<close>, whose strings are those of \<open>get_row_values\<close>). Cells \<open>Foo\<close>
  and \<open>foo\<close> give a Modified cell when \<open>case_sensitive\<close> is true and a Same cell
  when it is false.
\<close>

theorem compare_values_case_policy:
  "compare_values a b True = (a = b) \<and>
   compare_values a b False = (lower a = lower b) \<and>
   compare_values [] [] case_sensitive \<and>
   length (lower s) = length s \<and>
   (\<forall>i<length s. (of_char (lower s ! i) :: nat) =
      (let k = of_char (s ! i)
       in if (65 \<le> k \<and> k \<le> 90) \<or> (192 \<le> k \<and> k \<le> 222 \<and> k \<noteq> 215)
          then k + 32 else k)) \<and>
   fst (key_cells row1 row2 n case_sensitive) =
     map (\<lambda>j. let v1 = (if j < length row1 then row1 ! j else []);
                   v2 = (if j < length row2 then row2 ! j else [])
               in if compare_values v1 v2 case_sensitive
                  then \<lparr>cell_value = v2, old_value = None, cell_status = Same\<rparr>
                  else \<lparr>cell_value = v2, old_value = Some v1, cell_status = Modified\<rparr>)
         [0..<n] \<and>
   (n \<le> length row1 \<and> n \<le> length row2 \<longrightarrow>
    pos_cells row1 row2 n case_sensitive =
      Inr (map (\<lambda>j. if compare_values (row1 ! j) (row2 ! j) case_sensitive
                     then \<lparr>cell_value = row2 ! j, old_value = None, cell_status = Same\<rparr>
                     else \<lparr>cell_value = row2 ! j, old_value = Some (row1 ! j),
                           cell_status = Modified\<rparr>) [0..<n],
           \<exists>j\<in>{0..<n}. \<not> compare_values (row1 ! j) (row2 ! j) case_sensitive)) \<and>
   (\<exists>r. compare_dataframes df1 df2 key_column case_sensitive = Inr r \<and>
      (\<forall>p<length (rows r). \<exists>i1 i2.
         (\<not> key_matching key_column (max_cols_of df1 df2) \<longrightarrow> i1 = p \<and> i2 = p) \<and>
         row_from case_sensitive df1 df2 (max_cols_of df1 df2) i1 i2 (rows r ! p))) \<and>
   compare_dataframes sheet_Foo sheet_foo None True =
     Inr \<lparr>headers = [''name''],
          rows = [\<lparr>row_status = Modified,
                   cells = [\<lparr>cell_value = ''foo'', old_value = Some ''Foo'',
                             cell_status = Modified\<rparr>]\<rparr>],
          summary = \<lparr>total_rows = 1, added = 0, deleted = 0, modified = 1, unchanged = 0\<rparr>\<rparr> \<and>
   compare_dataframes sheet_Foo sheet_foo None False =
     Inr \<lparr>headers = [''name''],
          rows = [\<lparr>row_status = Same,
                   cells = [\<lparr>cell_value = ''foo'', old_value = None,
                             cell_status = Same\<rparr>]\<rparr>],
          summary = \<lparr>total_rows = 1, added = 0, deleted = 0, modified = 0, unchanged = 1\<rparr>\<rparr>"
proof (intro conjI)
  show "compare_values a b True = (a = b)"
    by (simp add: compare_values_def)
  show "compare_values a b False = (lower a = lower b)"
    by (simp add: compare_values_def)
  show "compare_values [] [] case_sensitive"
    by (simp add: compare_values_def)
  show "length (lower s) = length s"
    by (simp add: lower_def)
  show "\<forall>i<length s. (of_char (lower s ! i) :: nat) =
      (let k = of_char (s ! i)
       in if (65 \<le> k \<and> k \<le> 90) \<or> (192 \<le> k \<and> k \<le> 222 \<and> k \<noteq> 215)
          then k + 32 else k)"
    by (simp add: lower_def of_char_lower_char)
  show "fst (key_cells row1 row2 n case_sensitive) =
     map (\<lambda>j. let v1 = (if j < length row1 then row1 ! j else []);
                   v2 = (if j < length row2 then row2 ! j else [])
               in if compare_values v1 v2 case_sensitive
                  then \<lparr>cell_value = v2, old_value = None, cell_status = Same\<rparr>
                  else \<lparr>cell_value = v2, old_value = Some v1, cell_status = Modified\<rparr>)
         [0..<n]"
    by (simp add: key_cells_eq paired_cells_def diff_cell_def nth_or_empty_def
        same_cell_def modified_cell_def Let_def)
  show "n \<le> length row1 \<and> n \<le> length row2 \<longrightarrow>
    pos_cells row1 row2 n case_sensitive =
      Inr (map (\<lambda>j. if compare_values (row1 ! j) (row2 ! j) case_sensitive
                     then \<lparr>cell_value = row2 ! j, old_value = None, cell_status = Same\<rparr>
                     else \<lparr>cell_value = row2 ! j, old_value = Some (row1 ! j),
                           cell_status = Modified\<rparr>) [0..<n],
           \<exists>j\<in>{0..<n}. \<not> compare_values (row1 ! j) (row2 ! j) case_sensitive)"
    by (intro impI, elim conjE, rule pos_cells_explicit)
  have "\<forall>p<length (diff_rows df1 df2 key_column case_sensitive). \<exists>i1 i2.
         (\<not> key_matching key_column (max_cols_of df1 df2) \<longrightarrow> i1 = p \<and> i2 = p) \<and>
         row_from case_sensitive df1 df2 (max_cols_of df1 df2) i1 i2
           (diff_rows df1 df2 key_column case_sensitive ! p)"
    by (intro allI impI diff_rows_from)
  then have "\<forall>p<length (rows (tallied (merged_headers_of df1 df2)
        (diff_rows df1 df2 key_column case_sensitive))). \<exists>i1 i2.
         (\<not> key_matching key_column (max_cols_of df1 df2) \<longrightarrow> i1 = p \<and> i2 = p) \<and>
         row_from case_sensitive df1 df2 (max_cols_of df1 df2) i1 i2
           (rows (tallied (merged_headers_of df1 df2)
              (diff_rows df1 df2 key_column case_sensitive)) ! p)"
    by simp
  then show "\<exists>r. compare_dataframes df1 df2 key_column case_sensitive = Inr r \<and>
      (\<forall>p<length (rows r). \<exists>i1 i2.
         (\<not> key_matching key_column (max_cols_of df1 df2) \<longrightarrow> i1 = p \<and> i2 = p) \<and>
         row_from case_sensitive df1 df2 (max_cols_of df1 df2) i1 i2 (rows r ! p))"
    by (intro exI [of _ "tallied (merged_headers_of df1 df2)
        (diff_rows df1 df2 key_column case_sensitive)"] conjI compare_dataframes_eq)
  show "compare_dataframes sheet_Foo sheet_foo None True =
     Inr \<lparr>headers = [''name''],
          rows = [\<lparr>row_status = Modified,
                   cells = [\<lparr>cell_value = ''foo'', old_value = Some ''Foo'',
                             cell_status = Modified\<rparr>]\<rparr>],
          summary = \<lparr>total_rows = 1, added = 0, deleted = 0, modified = 1, unchanged = 0\<rparr>\<rparr>"
    by code_simp
  show "compare_dataframes sheet_Foo sheet_foo None False =
     Inr \<lparr>headers = [''name''],
          rows = [\<lparr>row_status = Same,
                   cells = [\<lparr>cell_value = ''foo'', old_value = None,
                             cell_status = Same\<rparr>]\<rparr>],
          summary = \<lparr>total_rows = 1, added = 0, deleted = 0, modified = 0, unchanged = 1\<rparr>\<rparr>"
    by code_simp
qed

theorem compare_values_case_policy_witness:
  "(0::nat) < length ''Foo'' \<and> (of_char (lower ''Foo'' ! 0) :: nat) = 102 \<and>
   (1::nat) \<le> length [''Foo''] \<and> (1::nat) \<le> length [''foo''] \<and>
   pos_cells [''Foo''] [''foo''] 1 False =
     Inr ([\<lparr>cell_value = ''foo'', old_value = None, cell_status = Same\<rparr>], False) \<and>
   \<not> key_matching None (max_cols_of sheet_Foo sheet_foo) \<and>
   compare_dataframes sheet_Foo sheet_foo None False =
     Inr \<lparr>headers = [''name''],
          rows = [\<lparr>row_status = Same,
                   cells = [\<lparr>cell_value = ''foo'', old_value = None,
                             cell_status = Same\<rparr>]\<rparr>],
          summary = \<lparr>total_rows = 1, added = 0, deleted = 0, modified = 0, unchanged = 1\<rparr>\<rparr> \<and>
   row_from False sheet_Foo sheet_foo (max_cols_of sheet_Foo sheet_foo) 0 0
     \<lparr>row_status = Same,
      cells = [\<lparr>cell_value = ''foo'', old_value = None, cell_status = Same\<rparr>]\<rparr>"
proof -
  have 1: "(0::nat) < length ''Foo''" "(1::nat) \<le> length [''Foo'']" "(1::nat) \<le> length [''foo'']"
    by simp_all
  have 2: "(of_char (lower ''Foo'' ! 0) :: nat) = 102"
    by code_simp
  have 3: "pos_cells [''Foo''] [''foo''] 1 False =
     Inr ([\<lparr>cell_value = ''foo'', old_value = None, cell_status = Same\<rparr>], False)"
    by code_simp
  have km: "\<not> key_matching None (max_cols_of sheet_Foo sheet_foo)"
    by (simp add: key_matching_def)
  have e: "compare_dataframes sheet_Foo sheet_foo None False =
     Inr \<lparr>headers = [''name''],
          rows = [\<lparr>row_status = Same,
                   cells = [\<lparr>cell_value = ''foo'', old_value = None,
                             cell_status = Same\<rparr>]\<rparr>],
          summary = \<lparr>total_rows = 1, added = 0, deleted = 0, modified = 0, unchanged = 1\<rparr>\<rparr>"
    by code_simp
  from compare_values_case_policy [of _ _ False "''Foo''" "[''Foo'']" "[''foo'']" 1
      sheet_Foo sheet_foo None] km e
  have 4: "row_from False sheet_Foo sheet_foo (max_cols_of sheet_Foo sheet_foo) 0 0
     \<lparr>row_status = Same,
      cells = [\<lparr>cell_value = ''foo'', old_value = None, cell_status = Same\<rparr>]\<rparr>"
    by auto
  from 1 2 3 4 km e show ?thesis
    by simp
qed

subsection \<open>C5\<close>

text \<open>
  C5. For every pair of tables, either strategy and every configuration,
  \<open>compare_dataframes\<close> returns a result whose summary satisfies
  \<open>added + deleted + modified + unchanged = total_rows = len(rows)\<close>, each counter
  being the number of rows of that status.
\<close>

theorem summary_partitions_rows:
  "\<exists>r. compare_dataframes df1 df2 key_column case_sensitive = Inr r \<and>
       added (summary r) + deleted (summary r) + modified (summary r) + unchanged (summary r)
         = total_rows (summary r) \<and>
       total_rows (summary r) = length (rows r) \<and>
       added (summary r) = length (filter (\<lambda>row. row_status row = Added) (rows r)) \<and>
       deleted (summary r) = length (filter (\<lambda>row. row_status row = Deleted) (rows r)) \<and>
       modified (summary r) = length (filter (\<lambda>row. row_status row = Modified) (rows r)) \<and>
       unchanged (summary r) = length (filter (\<lambda>row. row_status row = Same) (rows r))"
proof -
  let ?rs = "diff_rows df1 df2 key_column case_sensitive"
  let ?r = "tallied (merged_headers_of df1 df2) ?rs"
  have "compare_dataframes df1 df2 key_column case_sensitive = Inr ?r"
    by (rule compare_dataframes_eq)
  moreover have "added (summary ?r) + deleted (summary ?r) + modified (summary ?r)
      + unchanged (summary ?r) = total_rows (summary ?r)"
    by (simp add: count_status_partition)
  moreover have "total_rows (summary ?r) = length (rows ?r)"
    by simp
  moreover have "added (summary ?r) = length (filter (\<lambda>row. row_status row = Added) (rows ?r))"
    "deleted (summary ?r) = length (filter (\<lambda>row. row_status row = Deleted) (rows ?r))"
    "modified (summary ?r) = length (filter (\<lambda>row. row_status row = Modified) (rows ?r))"
    "unchanged (summary ?r) = length (filter (\<lambda>row. row_status row = Same) (rows ?r))"
    by (simp_all add: count_status_def)
  ultimately show ?thesis by blast
qed

subsection \<open>C6\<close>

text \<open>
  C6. Diffing a table against itself, positionally or by any key column, returns only
  rows of status \<open>same\<close> (with only \<open>same\<close> cells); the summary has
  \<open>added = deleted = modified = 0\<close> and \<open>unchanged = total_rows\<close>.
\<close>

theorem self_diff_unchanged:
  "\<exists>r. compare_dataframes df df key_column case_sensitive = Inr r \<and>
       (\<forall>row\<in>set (rows r).
          row_status row = Same \<and> (\<forall>c\<in>set (cells row). cell_status c = Same)) \<and>
       added (summary r) = 0 \<and> deleted (summary r) = 0 \<and> modified (summary r) = 0 \<and>
       unchanged (summary r) = total_rows (summary r)"
proof -
  let ?rs = "diff_rows df df key_column case_sensitive"
  let ?r = "tallied (merged_headers_of df df) ?rs"
  have eq: "compare_dataframes df df key_column case_sensitive = Inr ?r"
    by (rule compare_dataframes_eq)
  have same: "\<forall>row\<in>set ?rs. row_status row = Same \<and> (\<forall>c\<in>set (cells row). cell_status c = Same)"
    using self_diff_rows_Same by blast
  then have all: "\<forall>row\<in>set ?rs. row_status row = Same"
    by blast
  have "added (summary ?r) = 0" "deleted (summary ?r) = 0" "modified (summary ?r) = 0"
    "unchanged (summary ?r) = total_rows (summary ?r)"
    using count_status_all [OF all] by simp_all
  with eq same show ?thesis
    by (intro exI [of _ ?r]) simp
qed

theorem self_diff_unchanged_witness:
  "compare_dataframes sheet_Foo sheet_Foo (Some 0) False =
     Inr \<lparr>headers = [''name''],
          rows = [\<lparr>row_status = Same,
                   cells = [\<lparr>cell_value = ''Foo'', old_value = None,
                             cell_status = Same\<rparr>]\<rparr>],
          summary = \<lparr>total_rows = 1, added = 0, deleted = 0, modified = 0, unchanged = 1\<rparr>\<rparr> \<and>
   row_status \<lparr>row_status = Same,
               cells = [\<lparr>cell_value = ''Foo'', old_value = None,
                         cell_status = Same\<rparr>]\<rparr> = Same"
proof -
  have e: "compare_dataframes sheet_Foo sheet_Foo (Some 0) False =
     Inr \<lparr>headers = [''name''],
          rows = [\<lparr>row_status = Same,
                   cells = [\<lparr>cell_value = ''Foo'', old_value = None,
                             cell_status = Same\<rparr>]\<rparr>],
          summary = \<lparr>total_rows = 1, added = 0, deleted = 0, modified = 0, unchanged = 1\<rparr>\<rparr>"
    by code_simp
  from self_diff_unchanged [of sheet_Foo "Some 0" False] e show ?thesis
    by simp
qed

subsection \<open>C7\<close>

text \<open>
  C7. Under key matching with a valid key column, when the non-empty key values of the
  two tables are disjoint, every row of the diff is \<open>added\<close> with all cells
  \<open>added\<close> or \<open>deleted\<close> with all cells \<open>deleted\<close>, and the summary's
  \<open>modified\<close> and \<open>unchanged\<close> are zero.
\<close>

theorem disjoint_keys_added_or_deleted:
  assumes "key_matching key_column (max_cols_of df1 df2)"
    and "set (key_values df1 (nat (the key_column)) (max_cols_of df1 df2)) \<inter>
         set (key_values df2 (nat (the key_column)) (max_cols_of df1 df2)) = {}"
  shows "\<exists>r. compare_dataframes df1 df2 key_column case_sensitive = Inr r \<and>
           (\<forall>row\<in>set (rows r).
              (row_status row = Added \<and> (\<forall>c\<in>set (cells row). cell_status c = Added)) \<or>
              (row_status row = Deleted \<and> (\<forall>c\<in>set (cells row). cell_status c = Deleted))) \<and>
           modified (summary r) = 0 \<and> unchanged (summary r) = 0"
proof -
  let ?rs = "diff_rows df1 df2 key_column case_sensitive"
  let ?r = "tallied (merged_headers_of df1 df2) ?rs"
  have eq: "compare_dataframes df1 df2 key_column case_sensitive = Inr ?r"
    by (rule compare_dataframes_eq)
  have each: "\<forall>row\<in>set ?rs.
      (row_status row = Added \<and> (\<forall>c\<in>set (cells row). cell_status c = Added)) \<or>
      (row_status row = Deleted \<and> (\<forall>c\<in>set (cells row). cell_status c = Deleted))"
    using disjoint_key_rows [OF assms] by blast
  then have "\<forall>row\<in>set ?rs. row_status row \<noteq> Modified" "\<forall>row\<in>set ?rs. row_status row \<noteq> Same"
    by auto
  then have "modified (summary ?r) = 0" "unchanged (summary ?r) = 0"
    by (simp_all add: count_status_none)
  with eq each show ?thesis
    by (intro exI [of _ ?r]) simp
qed

theorem disjoint_keys_added_or_deleted_witness:
  "key_matching (Some 0) (max_cols_of sheet_Foo sheet_foo) \<and>
   set (key_values sheet_Foo (nat (the (Some 0))) (max_cols_of sheet_Foo sheet_foo)) \<inter>
   set (key_values sheet_foo (nat (the (Some 0))) (max_cols_of sheet_Foo sheet_foo)) = {} \<and>
   compare_dataframes sheet_Foo sheet_foo (Some 0) False =
     Inr \<lparr>headers = [''name''],
          rows = [\<lparr>row_status = Deleted,
                   cells = [\<lparr>cell_value = ''Foo'', old_value = None,
                             cell_status = Deleted\<rparr>]\<rparr>,
                  \<lparr>row_status = Added,
                   cells = [\<lparr>cell_value = ''foo'', old_value = None,
                             cell_status = Added\<rparr>]\<rparr>],
          summary = \<lparr>total_rows = 2, added = 1, deleted = 1, modified = 0, unchanged = 0\<rparr>\<rparr>"
proof -
  have km: "key_matching (Some 0) (max_cols_of sheet_Foo sheet_foo)"
    by code_simp
  have kv: "key_values sheet_Foo (nat (the (Some 0))) (max_cols_of sheet_Foo sheet_foo) = [''Foo'']"
    "key_values sheet_foo (nat (the (Some 0))) (max_cols_of sheet_Foo sheet_foo) = [''foo'']"
    by code_simp+
  have disj: "set (key_values sheet_Foo (nat (the (Some 0))) (max_cols_of sheet_Foo sheet_foo)) \<inter>
      set (key_values sheet_foo (nat (the (Some 0))) (max_cols_of sheet_Foo sheet_foo)) = {}"
    unfolding kv by simp
  have e: "compare_dataframes sheet_Foo sheet_foo (Some 0) False =
     Inr \<lparr>headers = [''name''],
          rows = [\<lparr>row_status = Deleted,
                   cells = [\<lparr>cell_value = ''Foo'', old_value = None,
                             cell_status = Deleted\<rparr>]\<rparr>,
                  \<lparr>row_status = Added,
                   cells = [\<lparr>cell_value = ''foo'', old_value = None,
                             cell_status = Added\<rparr>]\<rparr>],
          summary = \<lparr>total_rows = 2, added = 1, deleted = 1, modified = 0, unchanged = 0\<rparr>\<rparr>"
    by code_simp
  from disjoint_keys_added_or_deleted [OF km disj, of False] km disj e show ?thesis
    by simp
qed

subsection \<open>C8\<close>

text \<open>
  C8. For all header sequences the merged header has
  \<open>max(len(headers1), len(headers2))\<close> entries, and entry \<open>i\<close> is \<open>headers2[i]\<close>
  when that exists and is not empty, else \<open>headers1[i]\<close> when that exists and is not
  empty, else the empty string; \<open>compare_dataframes\<close> returns this list, computed
  from the stripped column labels, as \<open>headers\<close>.
\<close>

theorem merge_headers_entries:
  "length (merge_headers headers1 headers2 (max (length headers1) (length headers2)))
     = max (length headers1) (length headers2) \<and>
   (\<forall>i < max (length headers1) (length headers2).
      merge_headers headers1 headers2 (max (length headers1) (length headers2)) ! i =
        (if i < length headers2 \<and> headers2 ! i \<noteq> [] then headers2 ! i
         else if i < length headers1 \<and> headers1 ! i \<noteq> [] then headers1 ! i
         else [])) \<and>
   (\<exists>r. compare_dataframes df1 df2 key_column case_sensitive = Inr r \<and>
        headers r = merge_headers (map safe_str (columns df1)) (map safe_str (columns df2))
                      (max (length (map safe_str (columns df1)))
                           (length (map safe_str (columns df2)))))"
proof (intro conjI allI impI)
  show "length (merge_headers headers1 headers2 (max (length headers1) (length headers2)))
     = max (length headers1) (length headers2)"
    by (simp add: merge_headers_map)
next
  fix i
  assume "i < max (length headers1) (length headers2)"
  then show "merge_headers headers1 headers2 (max (length headers1) (length headers2)) ! i =
        (if i < length headers2 \<and> headers2 ! i \<noteq> [] then headers2 ! i
         else if i < length headers1 \<and> headers1 ! i \<noteq> [] then headers1 ! i
         else [])"
    by (simp add: merge_headers_map)
next
  have "headers (tallied (merged_headers_of df1 df2) (diff_rows df1 df2 key_column case_sensitive))
      = merge_headers (map safe_str (columns df1)) (map safe_str (columns df2))
                      (max (length (map safe_str (columns df1)))
                           (length (map safe_str (columns df2))))"
    by (simp add: merged_headers_of_def max_cols_of_def)
  then show "\<exists>r. compare_dataframes df1 df2 key_column case_sensitive = Inr r \<and>
        headers r = merge_headers (map safe_str (columns df1)) (map safe_str (columns df2))
                      (max (length (map safe_str (columns df1)))
                           (length (map safe_str (columns df2))))"
    using compare_dataframes_eq by blast
qed

theorem merge_headers_entries_witness:
  "(1::nat) < max (length [''id'', ''name'', ''x'']) (length [''ID'', '''']) \<and>
   merge_headers [''id'', ''name'', ''x''] [''ID'', '''']
     (max (length [''id'', ''name'', ''x'']) (length [''ID'', ''''])) ! 1 = ''name''"
  using merge_headers_entries [of "[''id'', ''name'', ''x'']" "[''ID'', '''']",
      THEN conjunct2, THEN conjunct1, rule_format, of 1]
  by simp

subsection \<open>C9\<close>

text \<open>
  C9 (amended). Under key-column matching rows are matched by exact string equality of
  their key values, whatever \<open>case_sensitive\<close> is. When a key value \<open>ka\<close> of the
  original table is not a key value of the compare table and a key value \<open>kb\<close> of
  the compare table is not one of the original table (in particular when the two differ
  only in letter case and neither table holds the other spelling), the diff has a
  \<open>deleted\<close> row carrying a row of the original table with key \<open>ka\<close> and an
  \<open>added\<close> row carrying a row of the compare table with key \<open>kb\<close>, and no
  \<open>same\<close> or \<open>modified\<close> row has \<open>ka\<close> or \<open>kb\<close> in its key cell.
\<close>

theorem keys_match_exactly:
  assumes km: "key_matching key_column (max_cols_of df1 df2)"
    and ka: "ka \<in> set (key_values df1 (nat (the key_column)) (max_cols_of df1 df2))"
            "ka \<notin> set (key_values df2 (nat (the key_column)) (max_cols_of df1 df2))"
    and kb: "kb \<in> set (key_values df2 (nat (the key_column)) (max_cols_of df1 df2))"
            "kb \<notin> set (key_values df1 (nat (the key_column)) (max_cols_of df1 df2))"
  shows "\<exists>r. compare_dataframes df1 df2 key_column case_sensitive = Inr r \<and>
    (\<exists>i1<len_df df1.
       key_of df1 (nat (the key_column)) (max_cols_of df1 df2) i1 = ka \<and>
       \<lparr>row_status = Deleted,
        cells = map deleted_cell (get_row_values df1 i1 (max_cols_of df1 df2))\<rparr>
         \<in> set (rows r)) \<and>
    (\<exists>i2<len_df df2.
       key_of df2 (nat (the key_column)) (max_cols_of df1 df2) i2 = kb \<and>
       \<lparr>row_status = Added,
        cells = map added_cell (get_row_values df2 i2 (max_cols_of df1 df2))\<rparr>
         \<in> set (rows r)) \<and>
    (\<forall>row\<in>set (rows r).
       row_status row = Same \<or> row_status row = Modified \<longrightarrow>
       cell_value (cells row ! nat (the key_column)) \<noteq> ka \<and>
       cell_value (cells row ! nat (the key_column)) \<noteq> kb)"
proof -
  define n where "n = max_cols_of df1 df2"
  define kc where "kc = nat (the key_column)"
  let ?f = "key_row (build_index df1 kc n) (build_index df2 kc n) n case_sensitive"
  let ?rs = "diff_rows df1 df2 key_column case_sensitive"
  let ?r = "tallied (merged_headers_of df1 df2) ?rs"
  have eq: "compare_dataframes df1 df2 key_column case_sensitive = Inr ?r"
    by (rule compare_dataframes_eq)
  have rs: "?rs = map ?f (all_keys_of df1 df2 kc n)"
    using km by (simp add: diff_rows_key n_def kc_def)
  have kc: "kc < n"
    using km by (simp add: key_matching_lt n_def kc_def)
  note ka' = ka [folded n_def kc_def] and kb' = kb [folded n_def kc_def]
  have keys: "ka \<in> set (all_keys_of df1 df2 kc n)" "kb \<in> set (all_keys_of df1 df2 kc n)"
    using ka'(1) kb'(1) by (simp_all only: set_all_keys_of set_keys_build_index Un_iff simp_thms)
  from one_sided_key_rows [OF ka', of case_sensitive]
  obtain i1 where i1: "i1 < len_df df1" "key_of df1 kc n i1 = ka"
    "?f ka = \<lparr>row_status = Deleted, cells = map deleted_cell (get_row_values df1 i1 n)\<rparr>"
    by blast
  from one_sided_key_rows [OF kb', of case_sensitive]
  obtain i2 where i2: "i2 < len_df df2" "key_of df2 kc n i2 = kb"
    "?f kb = \<lparr>row_status = Added, cells = map added_cell (get_row_values df2 i2 n)\<rparr>"
    by blast
  have del: "\<lparr>row_status = Deleted, cells = map deleted_cell (get_row_values df1 i1 n)\<rparr>
      \<in> set ?rs"
    using keys(1) i1(3) unfolding rs by (metis image_eqI set_map)
  have add: "\<lparr>row_status = Added, cells = map added_cell (get_row_values df2 i2 n)\<rparr>
      \<in> set ?rs"
    using keys(2) i2(3) unfolding rs by (metis image_eqI set_map)
  have matched: "cell_value (cells row ! kc) \<noteq> ka \<and> cell_value (cells row ! kc) \<noteq> kb"
    if row: "row \<in> set ?rs" and st: "row_status row = Same \<or> row_status row = Modified" for row
  proof -
    from row obtain key where key: "key \<in> set (all_keys_of df1 df2 kc n)" and "row = ?f key"
      unfolding rs by auto
    with matched_key_row [OF kc key, of case_sensitive] st
    have "key \<in> set (key_values df1 kc n)" "key \<in> set (key_values df2 kc n)"
      "cell_value (cells row ! kc) = key"
      by simp_all
    with ka'(2) kb'(2) show ?thesis by auto
  qed
  show ?thesis
  proof (intro exI [of _ ?r] conjI)
    show "compare_dataframes df1 df2 key_column case_sensitive = Inr ?r"
      by (rule eq)
    show "\<exists>i1<len_df df1.
       key_of df1 (nat (the key_column)) (max_cols_of df1 df2) i1 = ka \<and>
       \<lparr>row_status = Deleted,
        cells = map deleted_cell (get_row_values df1 i1 (max_cols_of df1 df2))\<rparr>
         \<in> set (rows ?r)"
      using i1 del unfolding n_def kc_def by auto
    show "\<exists>i2<len_df df2.
       key_of df2 (nat (the key_column)) (max_cols_of df1 df2) i2 = kb \<and>
       \<lparr>row_status = Added,
        cells = map added_cell (get_row_values df2 i2 (max_cols_of df1 df2))\<rparr>
         \<in> set (rows ?r)"
      using i2 add unfolding n_def kc_def by auto
    show "\<forall>row\<in>set (rows ?r).
       row_status row = Same \<or> row_status row = Modified \<longrightarrow>
       cell_value (cells row ! nat (the key_column)) \<noteq> ka \<and>
       cell_value (cells row ! nat (the key_column)) \<noteq> kb"
      using matched unfolding kc_def by simp
  qed
qed

theorem keys_match_exactly_witness:
  "key_matching (Some 0) (max_cols_of sheet_Foo sheet_foo) \<and>
   ''Foo'' \<in> set (key_values sheet_Foo (nat (the (Some 0))) (max_cols_of sheet_Foo sheet_foo)) \<and>
   ''Foo'' \<notin> set (key_values sheet_foo (nat (the (Some 0))) (max_cols_of sheet_Foo sheet_foo)) \<and>
   ''foo'' \<in> set (key_values sheet_foo (nat (the (Some 0))) (max_cols_of sheet_Foo sheet_foo)) \<and>
   ''foo'' \<notin> set (key_values sheet_Foo (nat (the (Some 0))) (max_cols_of sheet_Foo sheet_foo)) \<and>
   lower ''Foo'' = lower ''foo'' \<and>
   compare_dataframes sheet_Foo sheet_foo (Some 0) False =
     Inr \<lparr>headers = [''name''],
          rows = [\<lparr>row_status = Deleted,
                   cells = [\<lparr>cell_value = ''Foo'', old_value = None,
                             cell_status = Deleted\<rparr>]\<rparr>,
                  \<lparr>row_status = Added,
                   cells = [\<lparr>cell_value = ''foo'', old_value = None,
                             cell_status = Added\<rparr>]\<rparr>],
          summary = \<lparr>total_rows = 2, added = 1, deleted = 1, modified = 0, unchanged = 0\<rparr>\<rparr>"
proof -
  have km: "key_matching (Some 0) (max_cols_of sheet_Foo sheet_foo)"
    by code_simp
  have kv: "key_values sheet_Foo (nat (the (Some 0))) (max_cols_of sheet_Foo sheet_foo) = [''Foo'']"
    "key_values sheet_foo (nat (the (Some 0))) (max_cols_of sheet_Foo sheet_foo) = [''foo'']"
    by code_simp+
  have ka: "''Foo'' \<in> set (key_values sheet_Foo (nat (the (Some 0))) (max_cols_of sheet_Foo sheet_foo))"
    "''Foo'' \<notin> set (key_values sheet_foo (nat (the (Some 0))) (max_cols_of sheet_Foo sheet_foo))"
    unfolding kv by simp_all
  have kb: "''foo'' \<in> set (key_values sheet_foo (nat (the (Some 0))) (max_cols_of sheet_Foo sheet_foo))"
    "''foo'' \<notin> set (key_values sheet_Foo (nat (the (Some 0))) (max_cols_of sheet_Foo sheet_foo))"
    unfolding kv by simp_all
  have lo: "lower ''Foo'' = lower ''foo''"
    by code_simp
  have e: "compare_dataframes sheet_Foo sheet_foo (Some 0) False =
     Inr \<lparr>headers = [''name''],
          rows = [\<lparr>row_status = Deleted,
                   cells = [\<lparr>cell_value = ''Foo'', old_value = None,
                             cell_status = Deleted\<rparr>]\<rparr>,
                  \<lparr>row_status = Added,
                   cells = [\<lparr>cell_value = ''foo'', old_value = None,
                             cell_status = Added\<rparr>]\<rparr>],
          summary = \<lparr>total_rows = 2, added = 1, deleted = 1, modified = 0, unchanged = 0\<rparr>\<rparr>"
    by code_simp
  from keys_match_exactly [OF km ka kb, of False] km ka kb lo e show ?thesis
    by simp
qed

text \<open>
  The claim as stated asks for a \<open>deleted\<close> and an \<open>added\<close> row for every two
  rows whose keys differ only in letter case. When the compare table holds both
  spellings, the original row is matched with the row of its own spelling and no
  \<open>deleted\<close> row appears.
\<close>

theorem keys_match_exactly_counterexample:
  "key_of sheet_Foo 0 1 0 = ''Foo'' \<and> key_of sheet_foo_Foo 0 1 0 = ''foo'' \<and>
   ''Foo'' \<noteq> ''foo'' \<and> lower ''Foo'' = lower ''foo'' \<and>
   compare_dataframes sheet_Foo sheet_foo_Foo (Some 0) False =
     Inr \<lparr>headers = [''name''],
          rows = [\<lparr>row_status = Same,
                   cells = [\<lparr>cell_value = ''Foo'', old_value = None,
                             cell_status = Same\<rparr>]\<rparr>,
                  \<lparr>row_status = Added,
                   cells = [\<lparr>cell_value = ''foo'', old_value = None,
                             cell_status = Added\<rparr>]\<rparr>],
          summary = \<lparr>total_rows = 2, added = 1, deleted = 0, modified = 0, unchanged = 1\<rparr>\<rparr>"
proof (intro conjI)
  show "key_of sheet_Foo 0 1 0 = ''Foo''"
    by code_simp
  show "key_of sheet_foo_Foo 0 1 0 = ''foo''"
    by code_simp
  show "''Foo'' \<noteq> ''foo''"
    by simp
  show "lower ''Foo'' = lower ''foo''"
    by code_simp
  show "compare_dataframes sheet_Foo sheet_foo_Foo (Some 0) False =
     Inr \<lparr>headers = [''name''],
          rows = [\<lparr>row_status = Same,
                   cells = [\<lparr>cell_value = ''Foo'', old_value = None,
                             cell_status = Same\<rparr>]\<rparr>,
                  \<lparr>row_status = Added,
                   cells = [\<lparr>cell_value = ''foo'', old_value = None,
                             cell_status = Added\<rparr>]\<rparr>],
          summary = \<lparr>total_rows = 2, added = 1, deleted = 0, modified = 0, unchanged = 1\<rparr>\<rparr>"
    by code_simp
qed

subsection \<open>C10\<close>

text \<open>
  C10. In every cell of a sheet diff \<open>old_value\<close> is \<open>None\<close> exactly when the
  cell's status is not \<open>modified\<close>. A \<open>modified\<close> cell in column \<open>j\<close> of diff
  row \<open>p\<close> carries as \<open>old_value\<close> the string of column \<open>j\<close> of a row \<open>i1\<close>
  of the original table and as \<open>value\<close> that of a row \<open>i2\<close> of the compare table:
  the rows at position \<open>p\<close> under positional matching, two rows with the same key
  under key matching.
\<close>

theorem old_value_only_when_modified:
  "\<exists>r. compare_dataframes df1 df2 key_column case_sensitive = Inr r \<and>
     (\<forall>p<length (rows r). \<exists>i1 i2. \<forall>j<length (cells (rows r ! p)).
        (old_value (cells (rows r ! p) ! j) = None) =
          (cell_status (cells (rows r ! p) ! j) \<noteq> Modified) \<and>
        (cell_status (cells (rows r ! p) ! j) = Modified \<longrightarrow>
           i1 < len_df df1 \<and> i2 < len_df df2 \<and>
           (if key_matching key_column (max_cols_of df1 df2)
            then key_of df1 (nat (the key_column)) (max_cols_of df1 df2) i1 =
                 key_of df2 (nat (the key_column)) (max_cols_of df1 df2) i2
            else i1 = p \<and> i2 = p) \<and>
           old_value (cells (rows r ! p) ! j) =
             Some (get_row_values df1 i1 (max_cols_of df1 df2) ! j) \<and>
           cell_value (cells (rows r ! p) ! j) =
             get_row_values df2 i2 (max_cols_of df1 df2) ! j))"
proof -
  define n where "n = max_cols_of df1 df2"
  define kc where "kc = nat (the key_column)"
  let ?rs = "diff_rows df1 df2 key_column case_sensitive"
  let ?r = "tallied (merged_headers_of df1 df2) ?rs"
  let ?link = "\<lambda>p i1 i2. if key_matching key_column n
      then key_of df1 kc n i1 = key_of df2 kc n i2 else i1 = p \<and> i2 = p"
  have eq: "compare_dataframes df1 df2 key_column case_sensitive = Inr ?r"
    by (rule compare_dataframes_eq)
  have "\<exists>i1 i2. cells_from df1 df2 n i1 i2 (?link p i1 i2) (cells (?rs ! p))"
    if p: "p < length ?rs" for p
  proof (cases "key_matching key_column n")
    case True
    then have "?rs ! p = key_row (build_index df1 kc n) (build_index df2 kc n) n
        case_sensitive (all_keys_of df1 df2 kc n ! p)"
      using p by (simp add: diff_rows_key n_def kc_def)
    with True key_row_cells_from [of df1 df2 n kc case_sensitive "all_keys_of df1 df2 kc n ! p"]
    show ?thesis by simp
  next
    case False
    then have "?rs ! p = pos_row df1 df2 n case_sensitive p"
      using p by (simp add: diff_rows_pos n_def)
    with False pos_row_cells_from [of df1 df2 n p case_sensitive]
    have "cells_from df1 df2 n p p (?link p p p) (cells (?rs ! p))"
      by simp
    then show ?thesis by blast
  qed
  then have "\<forall>p<length (rows ?r). \<exists>i1 i2.
      cells_from df1 df2 n i1 i2 (?link p i1 i2) (cells (rows ?r ! p))"
    by simp
  with eq show ?thesis
    unfolding cells_from_def n_def kc_def by blast
qed

theorem old_value_only_when_modified_witness:
  "compare_dataframes sheet_Foo sheet_foo None True =
     Inr \<lparr>headers = [''name''],
          rows = [\<lparr>row_status = Modified,
                   cells = [\<lparr>cell_value = ''foo'', old_value = Some ''Foo'',
                             cell_status = Modified\<rparr>]\<rparr>],
          summary = \<lparr>total_rows = 1, added = 0, deleted = 0, modified = 1, unchanged = 0\<rparr>\<rparr> \<and>
   get_row_values sheet_Foo 0 (max_cols_of sheet_Foo sheet_foo) ! 0 = ''Foo'' \<and>
   get_row_values sheet_foo 0 (max_cols_of sheet_Foo sheet_foo) ! 0 = ''foo''"
proof -
  have e: "compare_dataframes sheet_Foo sheet_foo None True =
     Inr \<lparr>headers = [''name''],
          rows = [\<lparr>row_status = Modified,
                   cells = [\<lparr>cell_value = ''foo'', old_value = Some ''Foo'',
                             cell_status = Modified\<rparr>]\<rparr>],
          summary = \<lparr>total_rows = 1, added = 0, deleted = 0, modified = 1, unchanged = 0\<rparr>\<rparr>"
    by code_simp
  have km: "\<not> key_matching None (max_cols_of sheet_Foo sheet_foo)"
    by (simp add: key_matching_def)
  from old_value_only_when_modified [of sheet_Foo sheet_foo None True] e km
  show ?thesis
    by auto
qed

end
